theory Spec2Isabelle
  imports Main "HOL-Library.Sublist"
begin

section \<open>JavaScript values\<close>

text \<open>
  The values the parsers handle: what \<^verbatim>\<open>JSON.parse\<close> returns, plus \<^verbatim>\<open>undefined\<close>
  (the result of reading a property that is not there). A number is kept as the text
  JavaScript renders it with (\<^verbatim>\<open>String(n)\<close>); the program only tests numbers for
  truthiness and renders them inside a template literal, and both depend on that text
  alone. An object is the list of its own properties in the order
  \<^verbatim>\<open>Object.entries\<close> enumerates them.

  A JavaScript string is a sequence of code units; \<^typ>\<open>char\<close> covers the code units
  0 to 255.
\<close>

datatype jsv =
    JUndefined
  | JNull
  | JBool bool
  | JNum string
  | JStr string
  | JArr "jsv list"
  | JObj "(string \<times> jsv) list"

datatype js_error = IOError | SyntaxError | TypeError

text \<open>Truthiness, as \<^verbatim>\<open>!x\<close>, \<^verbatim>\<open>x || y\<close> and \<^verbatim>\<open>x && y\<close> test it.\<close>

fun truthy :: "jsv \<Rightarrow> bool" where
  "truthy JUndefined = False"
| "truthy JNull = False"
| "truthy (JBool b) = b"
| "truthy (JNum n) = (n \<noteq> ''0'' \<and> n \<noteq> ''NaN'')"
| "truthy (JStr s) = (s \<noteq> [])"
| "truthy (JArr xs) = True"
| "truthy (JObj kvs) = True"

text \<open>\<^verbatim>\<open>typeof x === 'object'\<close>\<close>

fun typeof_object :: "jsv \<Rightarrow> bool" where
  "typeof_object JNull = True"
| "typeof_object (JArr xs) = True"
| "typeof_object (JObj kvs) = True"
| "typeof_object v = False"

text \<open>
  \<^verbatim>\<open>x.k\<close> for the property names this program reads (\<^verbatim>\<open>packages\<close>,
  \<^verbatim>\<open>dependencies\<close>, \<^verbatim>\<open>devDependencies\<close>, \<^verbatim>\<open>version\<close>, \<^verbatim>\<open>dev\<close>, \<^verbatim>\<open>name\<close>,
  \<^verbatim>\<open>packages-dev\<close>, \<^verbatim>\<open>resolved\<close>, \<^verbatim>\<open>requested\<close>): none of them is inherited from
  a prototype, so the read gives an own property or \<^verbatim>\<open>undefined\<close>; on \<^verbatim>\<open>null\<close> and
  \<^verbatim>\<open>undefined\<close> it throws a TypeError.
\<close>

fun get_prop :: "jsv \<Rightarrow> string \<Rightarrow> js_error + jsv" where
  "get_prop JUndefined k = Inl TypeError"
| "get_prop JNull k = Inl TypeError"
| "get_prop (JObj kvs) k = Inr (case map_of kvs k of None \<Rightarrow> JUndefined | Some v \<Rightarrow> v)"
| "get_prop v k = Inr JUndefined"

definition digit_char :: "nat \<Rightarrow> char" where
  "digit_char d = ''0123456789'' ! (d mod 10)"

function show_nat :: "nat \<Rightarrow> string" where
  "show_nat n = (if n < 10 then [digit_char n] else show_nat (n div 10) @ [digit_char (n mod 10)])"
  by pat_completeness auto
termination
  by (relation "measure (\<lambda>n. n)") auto

declare show_nat.simps [simp del]

text \<open>\<^verbatim>\<open>Object.entries(x)\<close>: own enumerable properties; the indices of an array or a string.\<close>

definition indexed :: "'a list \<Rightarrow> (string \<times> 'a) list" where
  "indexed xs = zip (map show_nat [0..<length xs]) xs"

fun object_entries :: "jsv \<Rightarrow> js_error + (string \<times> jsv) list" where
  "object_entries JUndefined = Inl TypeError"
| "object_entries JNull = Inl TypeError"
| "object_entries (JObj kvs) = Inr kvs"
| "object_entries (JArr xs) = Inr (indexed xs)"
| "object_entries (JStr s) = Inr (indexed (map (\<lambda>c. JStr [c]) s))"
| "object_entries v = Inr []"

text \<open>\<^verbatim>\<open>Array.prototype.join\<close> on strings.\<close>

fun join :: "string \<Rightarrow> string list \<Rightarrow> string" where
  "join sep [] = []"
| "join sep [x] = x"
| "join sep (x # y # ys) = x @ sep @ join sep (y # ys)"

text \<open>
  String conversion, as a template literal \<^verbatim>\<open>`${x}`\<close> does it. An array is converted
  by \<^verbatim>\<open>Array.prototype.toString\<close>, which joins its elements with commas, converting
  each in turn, \<^verbatim>\<open>null\<close> and \<^verbatim>\<open>undefined\<close> elements rendered empty. An object is
  converted by the first of its methods \<^verbatim>\<open>toString\<close> and \<^verbatim>\<open>valueOf\<close> that is callable
  and returns a primitive. For a parsed object that is \<^verbatim>\<open>Object.prototype.toString\<close>,
  which gives \<^verbatim>\<open>[object Object]\<close>, unless the object has an own property
  \<^verbatim>\<open>toString\<close>: a parsed value is never callable and \<^verbatim>\<open>Object.prototype.valueOf\<close>
  returns the object itself, so no method gives a primitive and the conversion throws a
  TypeError.
\<close>

fun to_string :: "jsv \<Rightarrow> js_error + string"
  and elements_to_strings :: "jsv list \<Rightarrow> js_error + string list" where
  "to_string JUndefined = Inr ''undefined''"
| "to_string JNull = Inr ''null''"
| "to_string (JBool b) = Inr (if b then ''true'' else ''false'')"
| "to_string (JNum n) = Inr n"
| "to_string (JStr s) = Inr s"
| "to_string (JArr xs) =
     (case elements_to_strings xs of Inl err \<Rightarrow> Inl err | Inr ss \<Rightarrow> Inr (join '','' ss))"
| "to_string (JObj kvs) =
     (if map_of kvs ''toString'' = None then Inr ''[object Object]'' else Inl TypeError)"
| "elements_to_strings [] = Inr []"
| "elements_to_strings (x # xs) =
     (case (if x = JNull \<or> x = JUndefined then Inr [] else to_string x) of
        Inl err \<Rightarrow> Inl err
      | Inr s \<Rightarrow>
         (case elements_to_strings xs of Inl err \<Rightarrow> Inl err | Inr ss \<Rightarrow> Inr (s # ss)))"

section \<open>Strings\<close>

text \<open>
  The string operations the parsers call, on lists of code units. White space is what
  \<^verbatim>\<open>trim()\<close> strips and \<^verbatim>\<open>\s\<close> matches; among the code units 0 to 255 these are tab,
  line feed, vertical tab, form feed, carriage return, space and the no-break space. The
  line terminators, which the dot of a regular expression does not match and after which
  \<^verbatim>\<open>^\<close> matches under the \<^verbatim>\<open>m\<close> flag, are line feed and carriage return.
\<close>

definition in_range :: "char \<Rightarrow> char \<Rightarrow> char \<Rightarrow> bool" where
  "in_range lo hi c = ((of_char lo :: nat) \<le> of_char c \<and> (of_char c :: nat) \<le> of_char hi)"

definition is_space :: "char \<Rightarrow> bool" where
  "is_space c = (c \<in> set [CHR 0x09, CHR 0x0A, CHR 0x0B, CHR 0x0C, CHR 0x0D, CHR 0x20, CHR 0xA0])"

definition is_line_terminator :: "char \<Rightarrow> bool" where
  "is_line_terminator c = (c = CHR 0x0A \<or> c = CHR 0x0D)"

definition trim :: "string \<Rightarrow> string" where
  "trim s = rev (dropWhile is_space (rev (dropWhile is_space s)))"

definition startsWith :: "string \<Rightarrow> string \<Rightarrow> bool" where
  "startsWith s p = prefix p s"

definition endsWith :: "string \<Rightarrow> string \<Rightarrow> bool" where
  "endsWith s p = suffix p s"

text \<open>
  \<^verbatim>\<open>toLowerCase()\<close>: the letters A to Z and the upper-case letters of Latin-1 go to
  their lower-case counterparts; no other code unit below 256 changes.
\<close>

definition upper_chars :: string where
  "upper_chars = ''ABCDEFGHIJKLMNOPQRSTUVWXYZ'' @
     [CHR 0xC0, CHR 0xC1, CHR 0xC2, CHR 0xC3, CHR 0xC4, CHR 0xC5, CHR 0xC6, CHR 0xC7,
      CHR 0xC8, CHR 0xC9, CHR 0xCA, CHR 0xCB, CHR 0xCC, CHR 0xCD, CHR 0xCE, CHR 0xCF,
      CHR 0xD0, CHR 0xD1, CHR 0xD2, CHR 0xD3, CHR 0xD4, CHR 0xD5, CHR 0xD6,
      CHR 0xD8, CHR 0xD9, CHR 0xDA, CHR 0xDB, CHR 0xDC, CHR 0xDD, CHR 0xDE]"

definition lower_chars :: string where
  "lower_chars = ''abcdefghijklmnopqrstuvwxyz'' @
     [CHR 0xE0, CHR 0xE1, CHR 0xE2, CHR 0xE3, CHR 0xE4, CHR 0xE5, CHR 0xE6, CHR 0xE7,
      CHR 0xE8, CHR 0xE9, CHR 0xEA, CHR 0xEB, CHR 0xEC, CHR 0xED, CHR 0xEE, CHR 0xEF,
      CHR 0xF0, CHR 0xF1, CHR 0xF2, CHR 0xF3, CHR 0xF4, CHR 0xF5, CHR 0xF6,
      CHR 0xF8, CHR 0xF9, CHR 0xFA, CHR 0xFB, CHR 0xFC, CHR 0xFD, CHR 0xFE]"

definition lower_char :: "char \<Rightarrow> char" where
  "lower_char c = (case map_of (zip upper_chars lower_chars) c of None \<Rightarrow> c | Some l \<Rightarrow> l)"

definition toLowerCase :: "string \<Rightarrow> string" where
  "toLowerCase s = map lower_char s"

text \<open>
  The first occurrence of a pattern in a string, as \<^verbatim>\<open>indexOf\<close> finds it: the text
  before it and the text after it. \<^verbatim>\<open>includes\<close>, \<^verbatim>\<open>replace\<close> with a string pattern
  (which replaces the first occurrence only) and \<^verbatim>\<open>split\<close> with a string separator are
  built on it.
\<close>

fun find_sub :: "string \<Rightarrow> string \<Rightarrow> (string \<times> string) option" where
  "find_sub pat [] = (if pat = [] then Some ([], []) else None)"
| "find_sub pat (c # cs) =
     (if prefix pat (c # cs) then Some ([], drop (length pat) (c # cs))
      else (case find_sub pat cs of None \<Rightarrow> None | Some (b, a) \<Rightarrow> Some (c # b, a)))"

definition str_includes :: "string \<Rightarrow> string \<Rightarrow> bool" where
  "str_includes s pat = (find_sub pat s \<noteq> None)"

definition replace_first :: "string \<Rightarrow> string \<Rightarrow> string \<Rightarrow> string" where
  "replace_first pat rep s = (case find_sub pat s of None \<Rightarrow> s | Some (b, a) \<Rightarrow> b @ rep @ a)"

lemma find_sub_Some: "find_sub pat s = Some (b, a) \<Longrightarrow> s = b @ pat @ a"
proof (induction s arbitrary: b)
  case Nil
  then show ?case by (simp split: if_splits)
next
  case (Cons c cs)
  show ?case
  proof (cases "prefix pat (c # cs)")
    case True
    with Cons.prems have ba: "b = []" "a = drop (length pat) (c # cs)" by simp_all
    from True obtain zs where zs: "c # cs = pat @ zs" by (auto simp: prefix_def)
    from ba show ?thesis unfolding zs by simp
  next
    case False
    with Cons.prems obtain b' where "find_sub pat cs = Some (b', a)" "b = c # b'"
      by (auto split: option.splits)
    with Cons.IH show ?thesis by simp
  qed
qed

lemma find_sub_shorter: "find_sub pat s = Some (b, a) \<Longrightarrow> pat \<noteq> [] \<Longrightarrow> length a < length s"
  by (drule find_sub_Some) (cases pat, auto)

function split_str :: "string \<Rightarrow> string \<Rightarrow> string list" where
  "split_str sep s =
     (if sep = [] then map (\<lambda>c. [c]) s
      else (case find_sub sep s of None \<Rightarrow> [s] | Some (b, a) \<Rightarrow> b # split_str sep a))"
  by pat_completeness auto
termination
  by (relation "measure (\<lambda>(sep, s). length s)") (auto dest: find_sub_shorter)

declare split_str.simps [simp del]

text \<open>\<^verbatim>\<open>split(/\s+/)\<close>: the separators are the maximal runs of white space.\<close>

function split_ws :: "string \<Rightarrow> string list" where
  "split_ws s =
     (let tok = takeWhile (\<lambda>c. \<not> is_space c) s; rest = dropWhile (\<lambda>c. \<not> is_space c) s
      in if rest = [] then [tok] else tok # split_ws (dropWhile is_space rest))"
  by pat_completeness auto
termination
proof (relation "measure length")
  fix s :: string and tok rest
  assume r: "rest = dropWhile (\<lambda>c. \<not> is_space c) s" and ne: "rest \<noteq> []"
  have "length (dropWhile is_space rest) < length rest"
  proof (cases rest)
    case Nil with ne show ?thesis by simp
  next
    case (Cons c cs)
    with r have "is_space c" by (auto simp: dropWhile_eq_Cons_conv dest: sym)
    with Cons show ?thesis by (simp add: le_imp_less_Suc length_dropWhile_le)
  qed
  moreover have "length rest \<le> length s" using r by (simp add: length_dropWhile_le)
  ultimately show "(dropWhile is_space rest, s) \<in> measure length" by simp
qed simp

declare split_ws.simps [simp del]

section \<open>Dependency records\<close>

text \<open>
  The object literal every parser pushes:
  \<^verbatim>\<open>{ ecosystem, name, version, dev, lockfile_source }\<close>. The ecosystem is a string
  literal and the source is the file path; name, version and dev hold whatever value
  the parser read.
\<close>

record dep =
  ecosystem :: string
  name :: jsv
  version :: jsv
  dev :: jsv
  lockfile_source :: string

section \<open>Deduplication\<close>

text \<open>
  \<^verbatim>\<open>
  const seen = new Set();
  const unique = allDependencies.filter((dep) => {
    const key = `${dep.ecosystem}:${dep.name}:${dep.version}`;
    if (seen.has(key)) return false;
    seen.add(key);
    return true;
  });
  \<close>
\<close>

text \<open>
  The key of a record. The template literal converts the name, then the version; either
  conversion may throw. The filter calls its callback on the records in order, and an
  exception of the callback ends the filter.
\<close>

definition dep_key :: "dep \<Rightarrow> js_error + string" where
  "dep_key d =
     (case to_string (name d) of
        Inl err \<Rightarrow> Inl err
      | Inr n \<Rightarrow>
         (case to_string (version d) of
            Inl err \<Rightarrow> Inl err
          | Inr v \<Rightarrow> Inr (ecosystem d @ '':'' @ n @ '':'' @ v)))"

fun filter_seen :: "('a \<Rightarrow> js_error + 'k) \<Rightarrow> 'k set \<Rightarrow> 'a list \<Rightarrow> js_error + 'a list" where
  "filter_seen key seen [] = Inr []"
| "filter_seen key seen (d # ds) =
     (case key d of
        Inl err \<Rightarrow> Inl err
      | Inr k \<Rightarrow>
         if k \<in> seen then filter_seen key seen ds
         else (case filter_seen key (insert k seen) ds of
                 Inl err \<Rightarrow> Inl err
               | Inr kept \<Rightarrow> Inr (d # kept)))"

definition unique :: "dep list \<Rightarrow> js_error + dep list" where
  "unique allDependencies = filter_seen dep_key {} allDependencies"

text \<open>
  The first occurrence of each key, for a key whose computation cannot throw; and the
  deduplication as the specification words it: the identity key is the exact triple
  (ecosystem, name, version), and the first occurrence of each triple is kept.
\<close>

fun first_of_each :: "('a \<Rightarrow> 'k) \<Rightarrow> 'k set \<Rightarrow> 'a list \<Rightarrow> 'a list" where
  "first_of_each key seen [] = []"
| "first_of_each key seen (d # ds) =
     (if key d \<in> seen then first_of_each key seen ds
      else d # first_of_each key (insert (key d) seen) ds)"

definition triple :: "dep \<Rightarrow> string \<times> jsv \<times> jsv" where
  "triple d = (ecosystem d, name d, version d)"

definition dedup_by_triple :: "dep list \<Rightarrow> dep list" where
  "dedup_by_triple ds = first_of_each triple {} ds"

text \<open>The key of a record whose name and version can be converted to strings.\<close>

definition key_text :: "dep \<Rightarrow> string" where
  "key_text d = (case dep_key d of Inl err \<Rightarrow> [] | Inr k \<Rightarrow> k)"

section \<open>Regular expressions of the parsers\<close>

text \<open>
  A search without the sticky flag tries the pattern at every position from the left;
  with the \<^verbatim>\<open>m\<close> flag, \<^verbatim>\<open>^\<close> matches at the start of the input and after every line
  terminator.
\<close>

fun search :: "(string \<Rightarrow> 'a option) \<Rightarrow> string \<Rightarrow> 'a option" where
  "search m [] = m []"
| "search m (c # cs) = (case m (c # cs) of Some r \<Rightarrow> Some r | None \<Rightarrow> search m cs)"

fun search_lines :: "(string \<Rightarrow> 'a option) \<Rightarrow> bool \<Rightarrow> string \<Rightarrow> 'a option" where
  "search_lines m bol [] = (if bol then m [] else None)"
| "search_lines m bol (c # cs) =
     (case (if bol then m (c # cs) else None) of
        Some r \<Rightarrow> Some r
      | None \<Rightarrow> search_lines m (is_line_terminator c) cs)"

text \<open>\<^verbatim>\<open>/^([a-zA-Z0-9_-]+(?:\[[^\]]+\])?)\s*([=<>!~]+)?\s*([^\s;#]+)?/\<close>, groups 1 and 3.\<close>

definition is_alnum :: "char \<Rightarrow> bool" where
  "is_alnum c = (in_range CHR ''a'' CHR ''z'' c \<or> in_range CHR ''A'' CHR ''Z'' c
     \<or> in_range CHR ''0'' CHR ''9'' c)"

definition req_name_char :: "char \<Rightarrow> bool" where
  "req_name_char c = (is_alnum c \<or> c = CHR ''_'' \<or> c = CHR ''-'')"

definition req_op_char :: "char \<Rightarrow> bool" where
  "req_op_char c = (c \<in> set ''=<>!~'')"

definition req_version_char :: "char \<Rightarrow> bool" where
  "req_version_char c = (\<not> (is_space c \<or> c = CHR '';'' \<or> c = CHR ''#''))"

definition req_extras :: "string \<Rightarrow> string \<times> string" where
  "req_extras s =
     (case s of
        [] \<Rightarrow> ([], s)
      | c # t \<Rightarrow>
          (let inner = takeWhile (\<lambda>x. x \<noteq> CHR '']'') t;
               after = dropWhile (\<lambda>x. x \<noteq> CHR '']'') t
           in if c = CHR ''['' \<and> inner \<noteq> [] \<and> after \<noteq> []
              then (c # inner @ '']'', tl after) else ([], s)))"

definition req_match :: "string \<Rightarrow> (string \<times> string option) option" where
  "req_match s =
     (let nm = takeWhile req_name_char s; r1 = dropWhile req_name_char s
      in if nm = [] then None
         else (case req_extras r1 of (extras, r2) \<Rightarrow>
           (let r3 = dropWhile is_space r2;
                r4 = dropWhile req_op_char r3;
                r5 = dropWhile is_space r4;
                ver = takeWhile req_version_char r5
            in Some (nm @ extras, if ver = [] then None else Some ver))))"

text \<open>\<^verbatim>\<open>.replace(/\[.*\]$/, '')\<close>: the dot matches no line terminator.\<close>

fun strip_extras :: "string \<Rightarrow> string" where
  "strip_extras [] = []"
| "strip_extras (c # cs) =
     (if c = CHR ''['' \<and> cs \<noteq> [] \<and> last cs = CHR '']''
         \<and> list_all (\<lambda>x. \<not> is_line_terminator x) (butlast cs)
      then [] else c # strip_extras cs)"

text \<open>\<^verbatim>\<open>.replace(/[,;].*$/, '')\<close>\<close>

fun strip_clause :: "string \<Rightarrow> string" where
  "strip_clause [] = []"
| "strip_clause (c # cs) =
     (if (c = CHR '','' \<or> c = CHR '';'') \<and> list_all (\<lambda>x. \<not> is_line_terminator x) cs
      then [] else c # strip_clause cs)"

text \<open>\<^verbatim>\<open>/^KEY\s*=\s*"([^"]+)"/m\<close> for the keys \<^verbatim>\<open>name\<close>, \<^verbatim>\<open>version\<close> and \<^verbatim>\<open>category\<close>.\<close>

definition toml_value_at :: "string \<Rightarrow> string \<Rightarrow> string option" where
  "toml_value_at key s =
     (if prefix key s then
        (case dropWhile is_space (drop (length key) s) of
           [] \<Rightarrow> None
         | e # r2 \<Rightarrow>
            (if e = CHR ''='' then
              (case dropWhile is_space r2 of
                 [] \<Rightarrow> None
               | q # r3 \<Rightarrow>
                  (let v = takeWhile (\<lambda>x. x \<noteq> CHR 0x22) r3;
                       r4 = dropWhile (\<lambda>x. x \<noteq> CHR 0x22) r3
                   in if q = CHR 0x22 \<and> v \<noteq> [] \<and> r4 \<noteq> [] then Some v else None))
             else None))
      else None)"

definition toml_value :: "string \<Rightarrow> string \<Rightarrow> string option" where
  "toml_value key block = search_lines (toml_value_at key) True block"

text \<open>\<^verbatim>\<open>/<TAG>([^<]+)<\/TAG>/\<close>\<close>

definition xml_value_at :: "string \<Rightarrow> string \<Rightarrow> string option" where
  "xml_value_at tag s =
     (if prefix (''<'' @ tag @ ''>'') s then
        (let r = drop (length tag + 2) s;
             v = takeWhile (\<lambda>x. x \<noteq> CHR ''<'') r;
             r' = dropWhile (\<lambda>x. x \<noteq> CHR ''<'') r
         in if v \<noteq> [] \<and> prefix (''</'' @ tag @ ''>'') r' then Some v else None)
      else None)"

definition xml_value :: "string \<Rightarrow> string \<Rightarrow> string option" where
  "xml_value tag block = search (xml_value_at tag) block"

text \<open>
  \<^verbatim>\<open>OPEN[\s\S]*?CLOSE\<close> at a position: the lazy quantifier stops at the first
  \<^verbatim>\<open>CLOSE\<close> after \<^verbatim>\<open>OPEN\<close>. The result is the text between the two and the text
  after the match.
\<close>

definition block_at :: "string \<Rightarrow> string \<Rightarrow> string \<Rightarrow> (string \<times> string) option" where
  "block_at opn cls s = (if prefix opn s then find_sub cls (drop (length opn) s) else None)"

lemma find_sub_le: "find_sub pat s = Some (b, a) \<Longrightarrow> length a \<le> length s"
  by (drule find_sub_Some) simp

lemma block_at_shorter:
  "block_at opn cls s = Some (m, rest) \<Longrightarrow> opn \<noteq> [] \<Longrightarrow> length rest < length s"
proof -
  assume a: "block_at opn cls s = Some (m, rest)" and ne: "opn \<noteq> []"
  then have p: "prefix opn s" and f: "find_sub cls (drop (length opn) s) = Some (m, rest)"
    by (auto simp: block_at_def split: if_splits)
  from p ne have "length (drop (length opn) s) < length s"
    by (cases s) (auto simp: prefix_def)
  with find_sub_le [OF f] show ?thesis by simp
qed

text \<open>\<^verbatim>\<open>content.replace(/<dependencyManagement>[\s\S]*?<\/dependencyManagement>/g, '')\<close>\<close>

definition dm_open :: string where
  "dm_open = ''<dependencyManagement>''"

definition dm_close :: string where
  "dm_close = ''</dependencyManagement>''"

function remove_dependencyManagement :: "string \<Rightarrow> string" where
  "remove_dependencyManagement [] = []"
| "remove_dependencyManagement (c # cs) =
     (case block_at dm_open dm_close (c # cs) of
        Some (m, rest) \<Rightarrow> remove_dependencyManagement rest
      | None \<Rightarrow> c # remove_dependencyManagement cs)"
  by pat_completeness auto
termination
  by (relation "measure length") (auto dest: block_at_shorter simp: dm_open_def)

text \<open>\<^verbatim>\<open>content.match(/<dependency>[\s\S]*?<\/dependency>/g) || []\<close>\<close>

definition dependency_open :: string where
  "dependency_open = ''<dependency>''"

definition dependency_close :: string where
  "dependency_close = ''</dependency>''"

function dependency_blocks :: "string \<Rightarrow> string list" where
  "dependency_blocks [] = []"
| "dependency_blocks (c # cs) =
     (case block_at dependency_open dependency_close (c # cs) of
        Some (m, rest) \<Rightarrow> (dependency_open @ m @ dependency_close) # dependency_blocks rest
      | None \<Rightarrow> dependency_blocks cs)"
  by pat_completeness auto
termination
  by (relation "measure length") (auto dest: block_at_shorter simp: dependency_open_def)

text \<open>\<^verbatim>\<open>/^\s{4}([A-Za-z0-9_.-]+)\s+\(([^)]+)\)/\<close>\<close>

definition gem_name_char :: "char \<Rightarrow> bool" where
  "gem_name_char c = (is_alnum c \<or> c = CHR ''_'' \<or> c = CHR ''.'' \<or> c = CHR ''-'')"

definition gem_match :: "string \<Rightarrow> (string \<times> string) option" where
  "gem_match s =
     (let nm = takeWhile gem_name_char (drop 4 s);
          r1 = dropWhile gem_name_char (drop 4 s);
          r2 = dropWhile is_space r1
      in if length (take 4 s) = 4 \<and> list_all is_space (take 4 s) \<and> nm \<noteq> []
            \<and> takeWhile is_space r1 \<noteq> []
         then (case r2 of
                 [] \<Rightarrow> None
               | p # r3 \<Rightarrow>
                  (let v = takeWhile (\<lambda>x. x \<noteq> CHR '')'') r3;
                       r4 = dropWhile (\<lambda>x. x \<noteq> CHR '')'') r3
                   in if p = CHR ''('' \<and> v \<noteq> [] \<and> r4 \<noteq> [] then Some (nm, v) else None))
         else None)"

text \<open>\<^verbatim>\<open>/^[A-Z]/.test(s)\<close>\<close>

definition starts_upper :: "string \<Rightarrow> bool" where
  "starts_upper s = (case s of [] \<Rightarrow> False | c # cs \<Rightarrow> in_range CHR ''A'' CHR ''Z'' c)"

text \<open>\<^verbatim>\<open>.replace(/^require\s+/, '')\<close>\<close>

definition strip_require :: "string \<Rightarrow> string" where
  "strip_require s =
     (if prefix ''require'' s \<and> takeWhile is_space (drop 7 s) \<noteq> []
      then dropWhile is_space (drop 7 s) else s)"

section \<open>The process and its surroundings\<close>

text \<open>
  What the script reads from outside: the environment variables, the file system
  (\<^verbatim>\<open>fs.readFileSync(path, 'utf-8')\<close>, which throws when it cannot read the file),
  \<^verbatim>\<open>JSON.parse\<close> (which throws a SyntaxError on text that is not JSON), the clock and
  \<^verbatim>\<open>path.join\<close>.
\<close>

record world =
  process_env :: "string \<Rightarrow> string option"
  readFileSync :: "string \<Rightarrow> string option"
  JSON_parse :: "string \<Rightarrow> jsv option"
  toISOString_now :: string
  path_join :: "string \<Rightarrow> string \<Rightarrow> string"

text \<open>
  \<^verbatim>\<open>
  const LOCKFILES = process.env.LOCKFILES || '';
  const PROJECT_ID = process.env.PROJECT_ID || 'unknown';
  const INCLUDE_DEV = process.env.INCLUDE_DEV !== 'false';
  const WORKING_DIR = process.env.WORKING_DIR || '.';
  \<close>
\<close>

definition env_or :: "world \<Rightarrow> string \<Rightarrow> string \<Rightarrow> string" where
  "env_or w var dflt =
     (case process_env w var of None \<Rightarrow> dflt | Some v \<Rightarrow> if v = [] then dflt else v)"

definition LOCKFILES :: "world \<Rightarrow> string" where
  "LOCKFILES w = env_or w ''LOCKFILES'' []"

definition PROJECT_ID :: "world \<Rightarrow> string" where
  "PROJECT_ID w = env_or w ''PROJECT_ID'' ''unknown''"

definition INCLUDE_DEV :: "world \<Rightarrow> bool" where
  "INCLUDE_DEV w = (process_env w ''INCLUDE_DEV'' \<noteq> Some ''false'')"

definition WORKING_DIR :: "world \<Rightarrow> string" where
  "WORKING_DIR w = env_or w ''WORKING_DIR'' ''.''"

section \<open>Exceptions inside a parser\<close>

text \<open>
  Every parser has the shape
  \<^verbatim>\<open>
  const dependencies = [];
  try {
    ... dependencies.push(...) ...
    console.log(`Parsed ${dependencies.length} packages from ${filePath}`);
  } catch (err) {
    console.error(`Error parsing ${filePath}: ${err.message}`);
  }
  return dependencies;
  \<close>
  The body of the \<^verbatim>\<open>try\<close> is modelled by its outcome: the records pushed, and the
  exception that ended it, if one did. The records pushed before an exception stay in
  the array that is returned.
\<close>

type_synonym outcome = "dep list \<times> js_error option"

datatype log_line =
    Parsed nat string
  | ErrorParsing string js_error
  | UnknownType string
  | NoLockfiles
  | TotalUnique nat
  | WroteInventory string

definition prepend :: "dep list \<Rightarrow> outcome \<Rightarrow> outcome" where
  "prepend ds r = (case r of (ds', e) \<Rightarrow> (ds @ ds', e))"

definition and_then :: "outcome \<Rightarrow> outcome \<Rightarrow> outcome" where
  "and_then r1 r2 = (case r1 of (ds, Some e) \<Rightarrow> (ds, Some e) | (ds, None) \<Rightarrow> prepend ds r2)"

fun for_each :: "('a \<Rightarrow> outcome) \<Rightarrow> 'a list \<Rightarrow> outcome" where
  "for_each body [] = ([], None)"
| "for_each body (x # xs) =
     (case body x of
        (ds, Some e) \<Rightarrow> (ds, Some e)
      | (ds, None) \<Rightarrow> prepend ds (for_each body xs))"

definition finish :: "string \<Rightarrow> outcome \<Rightarrow> dep list \<times> log_line list" where
  "finish filePath r =
     (case r of
        (ds, None) \<Rightarrow> (ds, [Parsed (length ds) filePath])
      | (ds, Some e) \<Rightarrow> (ds, [ErrorParsing filePath e]))"

definition read_text :: "world \<Rightarrow> string \<Rightarrow> (string \<Rightarrow> outcome) \<Rightarrow> outcome" where
  "read_text w filePath body =
     (case readFileSync w filePath of None \<Rightarrow> ([], Some IOError) | Some content \<Rightarrow> body content)"

definition read_json :: "world \<Rightarrow> string \<Rightarrow> (jsv \<Rightarrow> outcome) \<Rightarrow> outcome" where
  "read_json w filePath body =
     read_text w filePath
       (\<lambda>content. case JSON_parse w content of None \<Rightarrow> ([], Some SyntaxError) | Some lock \<Rightarrow> body lock)"

section \<open>requirements.txt\<close>

definition requirements_line :: "string \<Rightarrow> string \<Rightarrow> dep list" where
  "requirements_line filePath line =
     (let trimmed = trim line in
      if trimmed = [] \<or> startsWith trimmed ''#'' \<or> startsWith trimmed ''-'' then []
      else (case req_match trimmed of
              None \<Rightarrow> []
            | Some (m1, m3) \<Rightarrow>
               (let nm = strip_extras m1;
                    ver = trim (strip_clause (case m3 of None \<Rightarrow> ''*'' | Some v \<Rightarrow> v))
                in if nm \<noteq> [] then
                     [\<lparr>ecosystem = ''pypi'', name = JStr (toLowerCase nm),
                       version = JStr ver,
                       dev = JBool (str_includes filePath ''dev'' \<or> str_includes filePath ''test''),
                       lockfile_source = filePath\<rparr>]
                   else [])))"

definition parseRequirements :: "world \<Rightarrow> string \<Rightarrow> dep list \<times> log_line list" where
  "parseRequirements w filePath =
     finish filePath (read_text w filePath (\<lambda>content.
       (concat (map (requirements_line filePath) (split_str ''\<newline>'' content)), None)))"

section \<open>poetry.lock\<close>

definition poetry_block :: "bool \<Rightarrow> string \<Rightarrow> string \<Rightarrow> dep list" where
  "poetry_block include_dev filePath block =
     (case (toml_value ''name'' block, toml_value ''version'' block) of
        (Some nameMatch, Some versionMatch) \<Rightarrow>
          (let isDev = (case toml_value ''category'' block of
                          None \<Rightarrow> JNull
                        | Some category \<Rightarrow> JBool (category = ''dev''))
           in if truthy isDev \<and> \<not> include_dev then []
              else [\<lparr>ecosystem = ''pypi'', name = JStr (toLowerCase nameMatch),
                     version = JStr versionMatch, dev = isDev, lockfile_source = filePath\<rparr>])
      | _ \<Rightarrow> [])"

definition parsePoetryLock :: "world \<Rightarrow> string \<Rightarrow> dep list \<times> log_line list" where
  "parsePoetryLock w filePath =
     finish filePath (read_text w filePath (\<lambda>content.
       (concat (map (poetry_block (INCLUDE_DEV w) filePath)
          (drop 1 (split_str ''[[package]]'' content))), None)))"

section \<open>go.sum and go.mod\<close>

definition go_sum_line :: "string \<Rightarrow> string \<Rightarrow> dep list" where
  "go_sum_line filePath line =
     (let trimmed = trim line in
      if trimmed = [] then []
      else (let parts = split_ws trimmed in
        if length parts < 2 then []
        else (let nm = parts ! 0;
                  ver = (if endsWith (parts ! 1) ''/go.mod''
                         then replace_first ''/go.mod'' [] (parts ! 1) else parts ! 1)
              in if nm = [] \<or> ver = [] then []
                 else [\<lparr>ecosystem = ''go'', name = JStr nm, version = JStr ver,
                        dev = JBool False, lockfile_source = filePath\<rparr>])))"

definition parseGoSum :: "world \<Rightarrow> string \<Rightarrow> dep list \<times> log_line list" where
  "parseGoSum w filePath =
     finish filePath (read_text w filePath (\<lambda>content.
       (concat (map (go_sum_line filePath) (split_str ''\<newline>'' content)), None)))"

definition go_mod_candidate :: "string \<Rightarrow> string option \<Rightarrow> dep list" where
  "go_mod_candidate filePath candidate =
     (case candidate of
        None \<Rightarrow> []
      | Some c \<Rightarrow>
         (if c = [] then []
          else (let cleaned = trim (hd (split_str ''//'' c)); parts = split_ws cleaned in
            if length parts < 2 then []
            else (let nm = parts ! 0; ver = parts ! 1 in
              if nm = [] \<or> ver = [] then []
              else [\<lparr>ecosystem = ''go'', name = JStr nm, version = JStr ver,
                     dev = JBool False, lockfile_source = filePath\<rparr>]))))"

fun go_mod_lines :: "string \<Rightarrow> bool \<Rightarrow> string list \<Rightarrow> dep list" where
  "go_mod_lines filePath inRequireBlock [] = []"
| "go_mod_lines filePath inRequireBlock (line # rest) =
     (let trimmed = trim line in
      if trimmed = [] \<or> startsWith trimmed ''//'' then go_mod_lines filePath inRequireBlock rest
      else if startsWith trimmed ''require ('' then go_mod_lines filePath True rest
      else if inRequireBlock \<and> startsWith trimmed '')'' then go_mod_lines filePath False rest
      else go_mod_candidate filePath
             (if inRequireBlock then Some trimmed
              else if startsWith trimmed ''require '' then Some (strip_require trimmed)
              else None)
           @ go_mod_lines filePath inRequireBlock rest)"

definition parseGoMod :: "world \<Rightarrow> string \<Rightarrow> dep list \<times> log_line list" where
  "parseGoMod w filePath =
     finish filePath (read_text w filePath (\<lambda>content.
       (go_mod_lines filePath False (split_str ''\<newline>'' content), None)))"

section \<open>Gemfile.lock\<close>

definition gemfile_line :: "string \<Rightarrow> string \<Rightarrow> dep list" where
  "gemfile_line filePath line =
     (case gem_match line of
        None \<Rightarrow> []
      | Some (nm, versions) \<Rightarrow>
         (let ver = trim (hd (split_str '','' versions)) in
          if nm = [] \<or> ver = [] then []
          else [\<lparr>ecosystem = ''rubygems'', name = JStr nm, version = JStr ver,
                 dev = JBool False, lockfile_source = filePath\<rparr>]))"

fun gemfile_lines :: "string \<Rightarrow> bool \<Rightarrow> string list \<Rightarrow> dep list" where
  "gemfile_lines filePath inSpecs [] = []"
| "gemfile_lines filePath inSpecs (line # rest) =
     (if trim line = ''specs:'' then gemfile_lines filePath True rest
      else if inSpecs \<and> trim line = [] then gemfile_lines filePath inSpecs rest
      else if inSpecs \<and> starts_upper (trim line) then gemfile_lines filePath False rest
      else if \<not> inSpecs then gemfile_lines filePath inSpecs rest
      else gemfile_line filePath line @ gemfile_lines filePath inSpecs rest)"

definition parseGemfileLock :: "world \<Rightarrow> string \<Rightarrow> dep list \<times> log_line list" where
  "parseGemfileLock w filePath =
     finish filePath (read_text w filePath (\<lambda>content.
       (gemfile_lines filePath False (split_str ''\<newline>'' content), None)))"

section \<open>Cargo.lock\<close>

definition cargo_block :: "string \<Rightarrow> string \<Rightarrow> dep list" where
  "cargo_block filePath block =
     (case (toml_value ''name'' block, toml_value ''version'' block) of
        (Some nameMatch, Some versionMatch) \<Rightarrow>
          [\<lparr>ecosystem = ''cargo'', name = JStr nameMatch, version = JStr versionMatch,
            dev = JBool False, lockfile_source = filePath\<rparr>]
      | _ \<Rightarrow> [])"

definition parseCargoLock :: "world \<Rightarrow> string \<Rightarrow> dep list \<times> log_line list" where
  "parseCargoLock w filePath =
     finish filePath (read_text w filePath (\<lambda>content.
       (concat (map (cargo_block filePath) (drop 1 (split_str ''[[package]]'' content))), None)))"

section \<open>pom.xml\<close>

text \<open>\<^verbatim>\<open>const scope = scopeMatch ? scopeMatch[1].trim() : ''\<close>\<close>

definition maven_scope :: "string \<Rightarrow> string" where
  "maven_scope block =
     (case xml_value ''scope'' block of None \<Rightarrow> [] | Some scopeMatch \<Rightarrow> trim scopeMatch)"

definition maven_block :: "bool \<Rightarrow> string \<Rightarrow> string \<Rightarrow> dep list" where
  "maven_block include_dev filePath block =
     (case (xml_value ''groupId'' block, xml_value ''artifactId'' block,
            xml_value ''version'' block) of
        (Some groupMatch, Some artifactMatch, Some versionMatch) \<Rightarrow>
          (let groupId = trim groupMatch;
               artifactId = trim artifactMatch;
               ver = trim versionMatch;
               scope = maven_scope block
           in if groupId = [] \<or> artifactId = [] \<or> ver = [] then []
              else if str_includes ver ''${'' then []
              else if scope = ''test'' \<and> \<not> include_dev then []
              else [\<lparr>ecosystem = ''maven'', name = JStr (groupId @ '':'' @ artifactId),
                     version = JStr ver, dev = JBool (scope = ''test''),
                     lockfile_source = filePath\<rparr>])
      | _ \<Rightarrow> [])"

definition maven_records :: "bool \<Rightarrow> string \<Rightarrow> string \<Rightarrow> dep list" where
  "maven_records include_dev filePath content =
     concat (map (maven_block include_dev filePath)
       (dependency_blocks (remove_dependencyManagement content)))"

definition parseMavenPom :: "world \<Rightarrow> string \<Rightarrow> dep list \<times> log_line list" where
  "parseMavenPom w filePath =
     finish filePath (read_text w filePath (\<lambda>content.
       (maven_records (INCLUDE_DEV w) filePath content, None)))"

section \<open>package-lock.json\<close>

text \<open>\<^verbatim>\<open>pkgPath.replace(/^node_modules\//, '').split('node_modules/').pop()\<close>\<close>

definition npm_package_name :: "string \<Rightarrow> string" where
  "npm_package_name pkgPath =
     last (split_str ''node_modules/''
       (if prefix ''node_modules/'' pkgPath then drop 13 pkgPath else pkgPath))"

definition npm_package :: "bool \<Rightarrow> string \<Rightarrow> string \<times> jsv \<Rightarrow> outcome" where
  "npm_package include_dev filePath entry =
     (case entry of (pkgPath, pkg) \<Rightarrow>
        if pkgPath = [] then ([], None)
        else if npm_package_name pkgPath = [] then ([], None)
        else (case get_prop pkg ''version'' of
                Inl err \<Rightarrow> ([], Some err)
              | Inr pkg_version \<Rightarrow>
                 if \<not> truthy pkg_version then ([], None)
                 else (case get_prop pkg ''dev'' of
                         Inl err \<Rightarrow> ([], Some err)
                       | Inr pkg_dev \<Rightarrow>
                          if truthy pkg_dev \<and> \<not> include_dev then ([], None)
                          else ([\<lparr>ecosystem = ''npm'', name = JStr (npm_package_name pkgPath),
                                   version = pkg_version,
                                   dev = (if truthy pkg_dev then pkg_dev else JBool False),
                                   lockfile_source = filePath\<rparr>], None))))"

lemma for_each_cong [fundef_cong]:
  "xs = ys \<Longrightarrow> (\<And>x. x \<in> set ys \<Longrightarrow> f x = g x) \<Longrightarrow> for_each f xs = for_each g ys"
  by (induction ys arbitrary: xs) (auto split: prod.splits option.splits)

lemma size_JObj_member: "(k, x) \<in> set kvs \<Longrightarrow> size x < size (JObj kvs)"
  by (induction kvs) auto

lemma size_JArr_member: "x \<in> set xs \<Longrightarrow> size x < size (JArr xs)"
  by (induction xs) auto

lemma get_prop_smaller: "get_prop v k = Inr x \<Longrightarrow> truthy x \<Longrightarrow> size x < size v"
proof (cases v)
  case (JObj kvs)
  assume "get_prop v k = Inr x" "truthy x"
  with JObj have "map_of kvs k = Some x" by (auto split: option.splits)
  then have "(k, x) \<in> set kvs" by (rule map_of_SomeD)
  with JObj show ?thesis using size_JObj_member by blast
qed auto

lemma object_entries_size: "object_entries v = Inr es \<Longrightarrow> (k, x) \<in> set es \<Longrightarrow> size x \<le> size v"
proof (cases v)
  case (JObj kvs)
  assume "object_entries v = Inr es" "(k, x) \<in> set es"
  with JObj show ?thesis by (auto dest: size_JObj_member less_imp_le)
next
  case (JArr xs)
  assume "object_entries v = Inr es" "(k, x) \<in> set es"
  with JArr have "x \<in> set xs" by (auto simp: indexed_def dest: set_zip_rightD)
  with JArr show ?thesis by (auto dest: size_JArr_member less_imp_le)
next
  case (JStr s)
  assume "object_entries v = Inr es" "(k, x) \<in> set es"
  with JStr have "x \<in> set (map (\<lambda>c. JStr [c]) s)" by (auto simp: indexed_def dest: set_zip_rightD)
  with JStr show ?thesis by auto
qed auto

text \<open>
  \<^verbatim>\<open>
  const parseDepsV1 = (deps, isDev = false) => {
    for (const [name, info] of Object.entries(deps)) {
      if (!info.version) continue;
      if (isDev && !INCLUDE_DEV) continue;
      dependencies.push({ ecosystem: 'npm', name, version: info.version, dev: isDev,
                          lockfile_source: filePath });
      if (info.dependencies) { parseDepsV1(info.dependencies, isDev); }
    }
  };
  \<close>
\<close>

function parseDepsV1 :: "bool \<Rightarrow> string \<Rightarrow> jsv \<Rightarrow> bool \<Rightarrow> outcome" where
  "parseDepsV1 include_dev filePath deps isDev =
     (case object_entries deps of
        Inl err \<Rightarrow> ([], Some err)
      | Inr entries \<Rightarrow>
         for_each (\<lambda>entry.
           case get_prop (snd entry) ''version'' of
             Inl err \<Rightarrow> ([], Some err)
           | Inr info_version \<Rightarrow>
              if \<not> truthy info_version then ([], None)
              else if isDev \<and> \<not> include_dev then ([], None)
              else prepend
                [\<lparr>ecosystem = ''npm'', name = JStr (fst entry), version = info_version,
                   dev = JBool isDev, lockfile_source = filePath\<rparr>]
                (case get_prop (snd entry) ''dependencies'' of
                   Inl err \<Rightarrow> ([], Some err)
                 | Inr info_dependencies \<Rightarrow>
                    if truthy info_dependencies
                    then parseDepsV1 include_dev filePath info_dependencies isDev
                    else ([], None)))
         entries)"
  by pat_completeness auto
termination
proof (relation "measure (\<lambda>(include_dev, filePath, deps, isDev). size deps)")
  fix include_dev :: bool and filePath :: string and deps :: jsv and isDev :: bool
    and entries :: "(string \<times> jsv) list" and entry :: "string \<times> jsv"
    and info_version info_dependencies :: jsv
  assume "object_entries deps = Inr entries" "entry \<in> set entries"
    and "get_prop (snd entry) ''dependencies'' = Inr info_dependencies"
    and "truthy info_dependencies"
  then have "size info_dependencies < size (snd entry)" "size (snd entry) \<le> size deps"
    using get_prop_smaller object_entries_size [of deps entries "fst entry" "snd entry"] by auto
  then show "((include_dev, filePath, info_dependencies, isDev), (include_dev, filePath, deps, isDev))
      \<in> measure (\<lambda>(include_dev, filePath, deps, isDev). size deps)"
    by simp
qed simp

declare parseDepsV1.simps [simp del]

definition npm_lock :: "bool \<Rightarrow> string \<Rightarrow> jsv \<Rightarrow> outcome" where
  "npm_lock include_dev filePath lock =
     (case get_prop lock ''packages'' of
        Inl err \<Rightarrow> ([], Some err)
      | Inr packages \<Rightarrow>
         if truthy packages then
           (case object_entries packages of
              Inl err \<Rightarrow> ([], Some err)
            | Inr entries \<Rightarrow> for_each (npm_package include_dev filePath) entries)
         else
           (case get_prop lock ''dependencies'' of
              Inl err \<Rightarrow> ([], Some err)
            | Inr dependencies \<Rightarrow>
               if truthy dependencies then
                 and_then (parseDepsV1 include_dev filePath dependencies False)
                   (case get_prop lock ''devDependencies'' of
                      Inl err \<Rightarrow> ([], Some err)
                    | Inr devDependencies \<Rightarrow>
                       if truthy devDependencies
                       then parseDepsV1 include_dev filePath devDependencies True
                       else ([], None))
               else ([], None)))"

definition parseNpmLockfile :: "world \<Rightarrow> string \<Rightarrow> dep list \<times> log_line list" where
  "parseNpmLockfile w filePath =
     finish filePath (read_json w filePath (npm_lock (INCLUDE_DEV w) filePath))"

section \<open>composer.lock\<close>

text \<open>\<^verbatim>\<open>Array.isArray(x) ? x : []\<close>\<close>

fun array_or_empty :: "jsv \<Rightarrow> jsv list" where
  "array_or_empty (JArr xs) = xs"
| "array_or_empty v = []"

definition composer_package :: "bool \<Rightarrow> string \<Rightarrow> jsv \<Rightarrow> outcome" where
  "composer_package is_dev filePath pkg =
     (case get_prop pkg ''name'' of
        Inl err \<Rightarrow> ([], Some err)
      | Inr pkg_name \<Rightarrow>
         if \<not> truthy pkg_name then ([], None)
         else (case get_prop pkg ''version'' of
                 Inl err \<Rightarrow> ([], Some err)
               | Inr pkg_version \<Rightarrow>
                  if \<not> truthy pkg_version then ([], None)
                  else ([\<lparr>ecosystem = ''composer'', name = pkg_name, version = pkg_version,
                           dev = JBool is_dev, lockfile_source = filePath\<rparr>], None)))"

definition composer_lock :: "bool \<Rightarrow> string \<Rightarrow> jsv \<Rightarrow> outcome" where
  "composer_lock include_dev filePath lock =
     (case get_prop lock ''packages'' of
        Inl err \<Rightarrow> ([], Some err)
      | Inr lock_packages \<Rightarrow>
         (case get_prop lock ''packages-dev'' of
            Inl err \<Rightarrow> ([], Some err)
          | Inr lock_packages_dev \<Rightarrow>
             and_then
               (for_each (composer_package False filePath) (array_or_empty lock_packages))
               (if include_dev
                then for_each (composer_package True filePath) (array_or_empty lock_packages_dev)
                else ([], None))))"

definition parseComposerLock :: "world \<Rightarrow> string \<Rightarrow> dep list \<times> log_line list" where
  "parseComposerLock w filePath =
     finish filePath (read_json w filePath (composer_lock (INCLUDE_DEV w) filePath))"

section \<open>packages.lock.json\<close>

text \<open>
  \<^verbatim>\<open>Object.values\<close> and \<^verbatim>\<open>Object.entries\<close> are only applied to values that are
  neither \<^verbatim>\<open>null\<close> nor \<^verbatim>\<open>undefined\<close> here, so neither throws.
\<close>

definition entries_of :: "jsv \<Rightarrow> (string \<times> jsv) list" where
  "entries_of v = (case object_entries v of Inl err \<Rightarrow> [] | Inr es \<Rightarrow> es)"

text \<open>\<^verbatim>\<open>info.resolved || info.version || info.requested\<close>, on an object or an array.\<close>

definition prop_of :: "jsv \<Rightarrow> string \<Rightarrow> jsv" where
  "prop_of v k = (case get_prop v k of Inl err \<Rightarrow> JUndefined | Inr x \<Rightarrow> x)"

definition nuget_version :: "jsv \<Rightarrow> jsv" where
  "nuget_version info =
     (if truthy (prop_of info ''resolved'') then prop_of info ''resolved''
      else if truthy (prop_of info ''version'') then prop_of info ''version''
      else prop_of info ''requested'')"

definition nuget_package :: "string \<Rightarrow> string \<times> jsv \<Rightarrow> dep list" where
  "nuget_package filePath entry =
     (case entry of (pkg_name, info) \<Rightarrow>
        if \<not> truthy info \<or> \<not> typeof_object info then []
        else if \<not> truthy (nuget_version info) then []
        else [\<lparr>ecosystem = ''nuget'', name = JStr pkg_name, version = nuget_version info,
               dev = JBool False, lockfile_source = filePath\<rparr>])"

definition nuget_target :: "string \<Rightarrow> jsv \<Rightarrow> dep list" where
  "nuget_target filePath target =
     (if \<not> truthy target \<or> \<not> typeof_object target then []
      else concat (map (nuget_package filePath) (entries_of target)))"

definition nuget_lock :: "string \<Rightarrow> jsv \<Rightarrow> outcome" where
  "nuget_lock filePath lock =
     (case get_prop lock ''dependencies'' of
        Inl err \<Rightarrow> ([], Some err)
      | Inr lock_dependencies \<Rightarrow>
         (let targets = (if truthy lock_dependencies then lock_dependencies else JObj [])
          in (concat (map (nuget_target filePath) (map snd (entries_of targets))), None)))"

definition parseNugetLock :: "world \<Rightarrow> string \<Rightarrow> dep list \<times> log_line list" where
  "parseNugetLock w filePath = finish filePath (read_json w filePath (nuget_lock filePath))"

section \<open>Main execution\<close>

datatype parser =
    NpmLockfile | Requirements | PoetryLock | GoSum | GoMod | GemfileLock | CargoLock
  | ComposerLock | NugetLock | MavenPom

fun run_parser :: "world \<Rightarrow> parser \<Rightarrow> string \<Rightarrow> dep list \<times> log_line list" where
  "run_parser w NpmLockfile filePath = parseNpmLockfile w filePath"
| "run_parser w Requirements filePath = parseRequirements w filePath"
| "run_parser w PoetryLock filePath = parsePoetryLock w filePath"
| "run_parser w GoSum filePath = parseGoSum w filePath"
| "run_parser w GoMod filePath = parseGoMod w filePath"
| "run_parser w GemfileLock filePath = parseGemfileLock w filePath"
| "run_parser w CargoLock filePath = parseCargoLock w filePath"
| "run_parser w ComposerLock filePath = parseComposerLock w filePath"
| "run_parser w NugetLock filePath = parseNugetLock w filePath"
| "run_parser w MavenPom filePath = parseMavenPom w filePath"

text \<open>The \<^verbatim>\<open>switch (type)\<close> of \<^verbatim>\<open>main\<close>; \<open>None\<close> is its \<^verbatim>\<open>default\<close> branch.\<close>

definition select_parser :: "string \<Rightarrow> string \<Rightarrow> parser option" where
  "select_parser type filePath =
     (if type = ''npm'' then Some NpmLockfile
      else if type = ''requirements'' then Some Requirements
      else if type = ''poetry'' then Some PoetryLock
      else if type = ''go'' then (if endsWith filePath ''go.sum'' then Some GoSum else Some GoMod)
      else if type = ''rubygems'' then Some GemfileLock
      else if type = ''cargo'' then Some CargoLock
      else if type = ''composer'' then Some ComposerLock
      else if type = ''nuget'' then Some NugetLock
      else if type = ''maven'' then Some MavenPom
      else None)"

text \<open>
  One round of the loop over \<^verbatim>\<open>lockfileList\<close>: the records it appends to
  \<^verbatim>\<open>allDependencies\<close> and what it prints.
  \<^verbatim>\<open>
  const [type, ...pathParts] = entry.split(':');
  const filePath = pathParts.join(':');
  if (!filePath) continue;
  \<close>
\<close>

definition entry_type :: "string \<Rightarrow> string" where
  "entry_type entry = hd (split_str '':'' entry)"

definition entry_path :: "string \<Rightarrow> string" where
  "entry_path entry = join '':'' (tl (split_str '':'' entry))"

definition process_entry :: "world \<Rightarrow> string \<Rightarrow> dep list \<times> log_line list" where
  "process_entry w entry =
     (if entry_path entry = [] then ([], [])
      else (case select_parser (entry_type entry) (entry_path entry) of
              None \<Rightarrow> ([], [UnknownType (entry_type entry)])
            | Some p \<Rightarrow> run_parser w p (entry_path entry)))"

fun process_entries :: "world \<Rightarrow> string list \<Rightarrow> dep list \<times> log_line list" where
  "process_entries w [] = ([], [])"
| "process_entries w (entry # rest) =
     (case process_entry w entry of (deps, printed) \<Rightarrow>
        (case process_entries w rest of (allDependencies, printed') \<Rightarrow>
           (deps @ allDependencies, printed @ printed')))"

section \<open>Writing the inventory\<close>

text \<open>
  \<^verbatim>\<open>
  dependencies.map(({ ecosystem, name, version, dev, lockfile_source }) => ({
    ecosystem, name, version,
    ...(dev !== undefined && { dev }),
    ...(lockfile_source && { lockfile_source }),
  }))
  \<close>
\<close>

definition inventory_entry :: "dep \<Rightarrow> jsv" where
  "inventory_entry d =
     JObj ([(''ecosystem'', JStr (ecosystem d)), (''name'', name d), (''version'', version d)]
           @ (if dev d \<noteq> JUndefined then [(''dev'', dev d)] else [])
           @ (if lockfile_source d \<noteq> [] then [(''lockfile_source'', JStr (lockfile_source d))]
              else []))"

record written =
  inventory :: jsv
  outputPath :: string
  github_output :: "string list"

definition writeInventory :: "world \<Rightarrow> dep list \<Rightarrow> written \<times> log_line list" where
  "writeInventory w dependencies =
     (let path = path_join w (WORKING_DIR w) ''.canary-inventory.json'' in
      (\<lparr>inventory = JObj [(''project_id'', JStr (PROJECT_ID w)),
                           (''generated_at'', JStr (toISOString_now w)),
                           (''source'', JStr ''github-action''),
                           (''dependencies'', JArr (map inventory_entry dependencies))],
         outputPath = path,
         github_output =
           (if env_or w ''GITHUB_OUTPUT'' [] = [] then []
            else [''packages_count='' @ show_nat (length dependencies) @ ''\<newline>'',
                  ''inventory_path='' @ path @ ''\<newline>''])\<rparr>,
       [WroteInventory path]))"

text \<open>
  \<^verbatim>\<open>main\<close>: what is written, or the exception that ended the run, and what was printed
  until then. Nothing catches an exception of the deduplication: the process ends with it
  and \<^verbatim>\<open>writeInventory\<close> is not reached.
\<close>

definition main :: "world \<Rightarrow> (js_error + written) \<times> log_line list" where
  "main w =
     (if LOCKFILES w = [] then
        (case writeInventory w [] of (out, printed) \<Rightarrow> (Inr out, NoLockfiles # printed))
      else
        (case process_entries w (split_str '','' (LOCKFILES w)) of
           (allDependencies, printed) \<Rightarrow>
             (case unique allDependencies of
                Inl err \<Rightarrow> (Inl err, printed)
              | Inr uniq \<Rightarrow>
                 (case writeInventory w uniq of
                    (out, printed') \<Rightarrow>
                      (Inr out, printed @ [TotalUnique (length uniq)] @ printed')))))"

text \<open>The inventory a run writes, and its \<^verbatim>\<open>dependencies\<close> array.\<close>

definition inventory_written :: "world \<Rightarrow> js_error + jsv" where
  "inventory_written w =
     (case fst (main w) of Inl err \<Rightarrow> Inl err | Inr out \<Rightarrow> Inr (inventory out))"

definition dependencies_written :: "world \<Rightarrow> js_error + jsv" where
  "dependencies_written w =
     (case inventory_written w of
        Inl err \<Rightarrow> Inl err
      | Inr doc \<Rightarrow> Inr (prop_of doc ''dependencies''))"

section \<open>Shapes of inputs and outputs used in the statements\<close>

text \<open>The inventory without its timestamp.\<close>

definition without_timestamp :: "jsv \<Rightarrow> jsv" where
  "without_timestamp doc = JObj (filter (\<lambda>kv. fst kv \<noteq> ''generated_at'') (entries_of doc))"

definition inventory_without_timestamp :: "world \<Rightarrow> js_error + jsv" where
  "inventory_without_timestamp w =
     (case inventory_written w of
        Inl err \<Rightarrow> Inl err
      | Inr doc \<Rightarrow> Inr (without_timestamp doc))"



section \<open>Example worlds\<close>

text \<open>
  Concrete surroundings for the examples: environment variables, files and the values
  \<^verbatim>\<open>JSON.parse\<close> gives for their texts, as association lists.
\<close>

definition posix_join :: "string \<Rightarrow> string \<Rightarrow> string" where
  "posix_join a b = a @ ''/'' @ b"

definition example_world ::
  "(string \<times> string) list \<Rightarrow> (string \<times> string) list \<Rightarrow> (string \<times> jsv) list \<Rightarrow> world" where
  "example_world vars files parsed =
     \<lparr>process_env = map_of vars, readFileSync = map_of files, JSON_parse = map_of parsed,
      toISOString_now = ''2026-01-01T00:00:00.000Z'', path_join = posix_join\<rparr>"

definition recognized_kinds :: "string list" where
  "recognized_kinds =
     [''npm'', ''requirements'', ''poetry'', ''go'', ''rubygems'', ''cargo'', ''composer'',
      ''nuget'', ''maven'']"

definition requirements_world :: world where
  "requirements_world =
     example_world [(''LOCKFILES'', ''requirements:requirements.txt'')]
       [(''requirements.txt'',
         ''flask==2.0.0\<newline>requests>=2.28.0\<newline># comment\<newline>-r other.txt\<newline>pytest==7.0.0'')]
       []"

definition go_world :: world where
  "go_world =
     example_world [(''LOCKFILES'', ''npm,go:,go:go.sum'')]
       [(''go.sum'', ''github.com/pkg/errors v0.9.1 h1:abcdef\<newline>'')] []"





definition dev_requirements_world :: world where
  "dev_requirements_world =
     example_world
       [(''LOCKFILES'', ''requirements:requirements-dev.txt''), (''INCLUDE_DEV'', ''false'')]
       [(''requirements-dev.txt'', ''pytest==7.0.0'')] []"

definition empty_field_world :: world where
  "empty_field_world =
     example_world
       [(''LOCKFILES'', ''requirements:requirements.txt,nuget:packages.lock.json'')]
       [(''requirements.txt'', ''flask==,2.0.0''),
        (''packages.lock.json'', ''{\"dependencies\":{\"net7.0\":{\"\":{\"resolved\":\"13.0.1\"}}}}'')]
       [(''{\"dependencies\":{\"net7.0\":{\"\":{\"resolved\":\"13.0.1\"}}}}'',
         JObj [(''dependencies'',
           JObj [(''net7.0'', JObj [('''', JObj [(''resolved'', JStr ''13.0.1'')])])])])]"

definition poetry_world :: world where
  "poetry_world =
     example_world [(''LOCKFILES'', ''poetry:poetry.lock'')]
       [(''poetry.lock'',
         ''[[package]]\<newline>name = \"requests\"\<newline>version = \"2.28.0\"\<newline>description = \"HTTP library\"\<newline>'')]
       []"

definition first_run_world :: world where
  "first_run_world =
     example_world [(''LOCKFILES'', ''go:go.sum''), (''PROJECT_ID'', ''demo'')]
       [(''go.sum'', ''github.com/pkg/errors v0.9.1 h1:abcdef\<newline>'')] []"

definition rerun_world :: world where
  "rerun_world =
     \<lparr>process_env = map_of [(''LOCKFILES'', ''go:go.sum''), (''PROJECT_ID'', ''demo''),
                            (''WORKING_DIR'', ''/tmp/out'')],
      readFileSync = map_of [(''go.sum'', ''github.com/pkg/errors v0.9.1 h1:abcdef\<newline>''),
                             (''notes.txt'', ''unrelated'')],
      JSON_parse = map_of [],
      toISOString_now = ''2026-06-30T12:00:00.000Z'', path_join = posix_join\<rparr>"






section \<open>Properties of the deduplication\<close>

lemma first_of_each_snoc:
  "first_of_each key seen (xs @ [x]) =
     first_of_each key seen xs @ (if key x \<in> seen \<union> key ` set xs then [] else [x])"
  by (induction xs arbitrary: seen) auto

lemma first_of_each_subseq: "subseq (first_of_each key seen xs) xs"
  by (induction xs arbitrary: seen) auto

lemma first_of_each_find:
  "k \<notin> seen \<Longrightarrow>
     find (\<lambda>d. key d = k) (first_of_each key seen xs) = find (\<lambda>d. key d = k) xs"
proof (induction xs arbitrary: seen)
  case Nil
  show ?case by simp
next
  case (Cons x xs)
  show ?case
  proof (cases "key x = k")
    case True
    with Cons.prems show ?thesis by simp
  next
    case False
    with Cons.prems have "k \<notin> insert (key x) seen" by simp
    from Cons.IH [OF this] Cons.IH [OF Cons.prems] False show ?thesis by simp
  qed
qed

lemma first_of_each_cong_keys:
  assumes "\<And>x y. x \<in> set xs \<Longrightarrow> y \<in> set xs \<Longrightarrow> (f x = f y) = (g x = g y)"
    and "\<And>x. x \<in> set xs \<Longrightarrow> (f x \<in> S) = (g x \<in> T)"
  shows "first_of_each f S xs = first_of_each g T xs"
  using assms
proof (induction xs arbitrary: S T)
  case Nil
  show ?case by simp
next
  case (Cons x xs)
  have same: "(f x \<in> S) = (g x \<in> T)"
    using Cons.prems(2) by simp
  have rest: "first_of_each f S xs = first_of_each g T xs"
    by (rule Cons.IH) (use Cons.prems in auto)
  have rest': "first_of_each f (insert (f x) S) xs = first_of_each g (insert (g x) T) xs"
  proof (rule Cons.IH)
    fix a b assume "a \<in> set xs" "b \<in> set xs"
    then show "(f a = f b) = (g a = g b)" using Cons.prems(1) by simp
  next
    fix a assume a: "a \<in> set xs"
    have "(f a = f x) = (g a = g x)" using Cons.prems(1) a by simp
    moreover have "(f a \<in> S) = (g a \<in> T)" using Cons.prems(2) a by simp
    ultimately show "(f a \<in> insert (f x) S) = (g a \<in> insert (g x) T)" by simp
  qed
  show ?case using same rest rest' by simp
qed

text \<open>
  Where every key can be computed, the filter is the first occurrence of each key; where
  one cannot, the filter ends with the exception.
\<close>

lemma filter_seen_computed:
  "list_all (\<lambda>d. key d = Inr (k d)) ds \<Longrightarrow>
     filter_seen key seen ds = Inr (first_of_each k seen ds)"
  by (induction ds arbitrary: seen) auto

lemma filter_seen_raises:
  "list_ex (\<lambda>d. key d = Inl err) ds \<Longrightarrow> list_all (\<lambda>d. key d = Inl err \<or> key d = Inr (k d)) ds \<Longrightarrow>
     filter_seen key seen ds = Inl err"
  by (induction ds arbitrary: seen) (auto split: sum.splits)

lemma to_string_error:
  "to_string v = Inl err \<Longrightarrow> err = TypeError"
  "elements_to_strings vs = Inl err \<Longrightarrow> err = TypeError"
  by (induction v and vs rule: to_string_elements_to_strings.induct)
    (auto split: sum.splits if_splits)

lemma dep_key_cases: "dep_key d = Inl TypeError \<or> dep_key d = Inr (key_text d)"
  by (auto simp: dep_key_def key_text_def split: sum.splits dest: to_string_error)

lemma unique_computed:
  "list_all (\<lambda>d. dep_key d = Inr (key_text d)) ds \<Longrightarrow>
     unique ds = Inr (first_of_each key_text {} ds)"
  by (simp add: unique_def filter_seen_computed)

lemma unique_raises:
  "list_ex (\<lambda>d. dep_key d = Inl TypeError) ds \<Longrightarrow> unique ds = Inl TypeError"
proof -
  assume ex: "list_ex (\<lambda>d. dep_key d = Inl TypeError) ds"
  have "list_all (\<lambda>d. dep_key d = Inl TypeError \<or> dep_key d = Inr (key_text d)) ds"
    by (simp add: list_all_iff dep_key_cases)
  with ex show ?thesis unfolding unique_def by (rule filter_seen_raises)
qed

lemma triple_eq_dep_key:
  assumes "triple d = triple d'"
  shows "dep_key d = dep_key d'"
proof -
  from assms have "ecosystem d = ecosystem d'" "name d = name d'" "version d = version d'"
    by (simp_all add: triple_def)
  then show ?thesis unfolding dep_key_def by (simp split: sum.splits)
qed

lemma dep_key_strings:
  "name d = JStr n \<Longrightarrow> version d = JStr v \<Longrightarrow> dep_key d = Inr (ecosystem d @ '':'' @ n @ '':'' @ v)"
  by (simp add: dep_key_def)

text \<open>
  C3, as stated: for every record sequence the deduplicator returns the first occurrence
  of each exact triple (ecosystem, name, version). It does not. The key is the three
  fields converted to strings and joined by colons, so two records with different triples
  and the same joined key collapse: the Go module \<^verbatim>\<open>a:b\<close> at version \<^verbatim>\<open>c\<close> and the
  module \<^verbatim>\<open>a\<close> at version \<^verbatim>\<open>b:c\<close> both have the key \<^verbatim>\<open>go:a:b:c\<close>, and the second
  record is dropped although its triple occurs nowhere before it. And the conversion can
  throw: for a record whose version is an object with a property \<^verbatim>\<open>toString\<close>, as
  the composer parser pushes it for the package
  \<^verbatim>\<open>{"name": "a", "version": {"toString": "x"}}\<close>, the deduplicator returns nothing.
\<close>

theorem unique_not_by_triple:
  "unique
     [\<lparr>ecosystem = ''go'', name = JStr ''a:b'', version = JStr ''c'', dev = JBool False,
        lockfile_source = ''go.mod''\<rparr>,
      \<lparr>ecosystem = ''go'', name = JStr ''a'', version = JStr ''b:c'', dev = JBool False,
        lockfile_source = ''go.mod''\<rparr>]
   = Inr [\<lparr>ecosystem = ''go'', name = JStr ''a:b'', version = JStr ''c'', dev = JBool False,
        lockfile_source = ''go.mod''\<rparr>]
   \<and> dedup_by_triple
     [\<lparr>ecosystem = ''go'', name = JStr ''a:b'', version = JStr ''c'', dev = JBool False,
        lockfile_source = ''go.mod''\<rparr>,
      \<lparr>ecosystem = ''go'', name = JStr ''a'', version = JStr ''b:c'', dev = JBool False,
        lockfile_source = ''go.mod''\<rparr>]
   = [\<lparr>ecosystem = ''go'', name = JStr ''a:b'', version = JStr ''c'', dev = JBool False,
        lockfile_source = ''go.mod''\<rparr>,
      \<lparr>ecosystem = ''go'', name = JStr ''a'', version = JStr ''b:c'', dev = JBool False,
        lockfile_source = ''go.mod''\<rparr>]
   \<and> unique
     [\<lparr>ecosystem = ''composer'', name = JStr ''a'',
        version = JObj [(''toString'', JStr ''x'')], dev = JBool False,
        lockfile_source = ''composer.lock''\<rparr>]
   = Inl TypeError"
  by (simp add: unique_def dedup_by_triple_def dep_key_def triple_def)

text \<open>
  C3, amended: for every concatenated record sequence whose names and versions can all be
  converted to strings (as every string can), the deduplicator returns the subsequence
  that keeps exactly the first occurrence of each key string
  \<^verbatim>\<open>ecosystem:name:version\<close>, in first-seen order: a record is kept if and only if no
  record before it has the same key. The first record with a given key survives with all
  its fields (so its dev and source values do). Records with the same triple have the
  same key, so they collapse whatever their dev and source; and where the key tells the
  triples of the input apart, the result is the first occurrence of each triple. The
  conversion of a name or a version either gives a string or throws a TypeError; a
  sequence that holds a record of the second kind is outside this statement, and for it
  the deduplicator returns nothing.
\<close>

theorem unique_first_of_each_key:
  "(list_all (\<lambda>x. dep_key x = Inr (key_text x)) (ds @ [d]) \<longrightarrow>
      (\<exists>kept. unique ds = Inr kept \<and> subseq kept ds
         \<and> unique (ds @ [d]) =
             Inr (kept @ (if key_text d \<in> key_text ` set ds then [] else [d]))
         \<and> find (\<lambda>x. key_text x = k) kept = find (\<lambda>x. key_text x = k) ds))
   \<and> unique [] = Inr []
   \<and> (name d = JStr n \<and> version d = JStr v \<longrightarrow>
        dep_key d = Inr (ecosystem d @ '':'' @ n @ '':'' @ v))
   \<and> (triple d = triple d' \<longrightarrow> dep_key d = dep_key d')
   \<and> (list_all (\<lambda>x. dep_key x = Inr (key_text x)) ds
        \<and> (\<forall>x\<in>set ds. \<forall>y\<in>set ds. key_text x = key_text y \<longrightarrow> triple x = triple y)
        \<longrightarrow> unique ds = Inr (dedup_by_triple ds))
   \<and> (dep_key d = Inl TypeError \<or> dep_key d = Inr (key_text d))
   \<and> (list_ex (\<lambda>x. dep_key x = Inl TypeError) ds \<longrightarrow> unique ds = Inl TypeError)"
proof -
  have a: "\<exists>kept. unique ds = Inr kept \<and> subseq kept ds
         \<and> unique (ds @ [d]) =
             Inr (kept @ (if key_text d \<in> key_text ` set ds then [] else [d]))
         \<and> find (\<lambda>x. key_text x = k) kept = find (\<lambda>x. key_text x = k) ds"
    if all: "list_all (\<lambda>x. dep_key x = Inr (key_text x)) (ds @ [d])"
  proof -
    from all have ds: "list_all (\<lambda>x. dep_key x = Inr (key_text x)) ds" by simp
    have "unique ds = Inr (first_of_each key_text {} ds)"
      by (rule unique_computed [OF ds])
    moreover have "subseq (first_of_each key_text {} ds) ds"
      by (rule first_of_each_subseq)
    moreover have "unique (ds @ [d]) =
        Inr (first_of_each key_text {} ds @ (if key_text d \<in> key_text ` set ds then [] else [d]))"
      using unique_computed [OF all] by (simp add: first_of_each_snoc)
    moreover have "find (\<lambda>x. key_text x = k) (first_of_each key_text {} ds)
        = find (\<lambda>x. key_text x = k) ds"
      by (simp add: first_of_each_find)
    ultimately show ?thesis by blast
  qed
  have b: "unique [] = Inr []"
    by (simp add: unique_def)
  have c: "dep_key d = Inr (ecosystem d @ '':'' @ n @ '':'' @ v)"
    if "name d = JStr n \<and> version d = JStr v"
    using that by (simp add: dep_key_strings)
  have e: "triple d = triple d' \<longrightarrow> dep_key d = dep_key d'"
    by (blast intro: triple_eq_dep_key)
  have f: "unique ds = Inr (dedup_by_triple ds)"
    if all: "list_all (\<lambda>x. dep_key x = Inr (key_text x)) ds"
      and inj: "\<forall>x\<in>set ds. \<forall>y\<in>set ds. key_text x = key_text y \<longrightarrow> triple x = triple y"
  proof -
    have "first_of_each key_text {} ds = first_of_each triple {} ds"
    proof (rule first_of_each_cong_keys)
      fix x y assume xy: "x \<in> set ds" "y \<in> set ds"
      have "key_text x = key_text y" if "triple x = triple y"
        using triple_eq_dep_key [OF that] by (simp add: key_text_def)
      with inj xy show "(key_text x = key_text y) = (triple x = triple y)" by blast
    next
      fix x show "(key_text x \<in> {}) = (triple x \<in> {})" by simp
    qed
    with unique_computed [OF all] show ?thesis by (simp add: dedup_by_triple_def)
  qed
  have g: "dep_key d = Inl TypeError \<or> dep_key d = Inr (key_text d)"
    by (rule dep_key_cases)
  have h: "unique ds = Inl TypeError" if "list_ex (\<lambda>x. dep_key x = Inl TypeError) ds"
    using that by (rule unique_raises)
  from a b c e f g h show ?thesis by blast
qed

text \<open>
  The theorem at a concrete input: lodash 4.17.21 from two lockfiles, once as a
  production and once as a dev dependency, with express between them. The later
  duplicate goes; the first occurrence keeps its dev flag and its source.
\<close>

theorem unique_first_of_each_key_witness:
  "unique
     ([\<lparr>ecosystem = ''npm'', name = JStr ''lodash'', version = JStr ''4.17.21'',
         dev = JBool False, lockfile_source = ''a/package-lock.json''\<rparr>,
       \<lparr>ecosystem = ''npm'', name = JStr ''express'', version = JStr ''4.18.0'',
         dev = JBool False, lockfile_source = ''a/package-lock.json''\<rparr>]
      @ [\<lparr>ecosystem = ''npm'', name = JStr ''lodash'', version = JStr ''4.17.21'',
         dev = JBool True, lockfile_source = ''b/package-lock.json''\<rparr>])
   = Inr [\<lparr>ecosystem = ''npm'', name = JStr ''lodash'', version = JStr ''4.17.21'',
         dev = JBool False, lockfile_source = ''a/package-lock.json''\<rparr>,
       \<lparr>ecosystem = ''npm'', name = JStr ''express'', version = JStr ''4.18.0'',
         dev = JBool False, lockfile_source = ''a/package-lock.json''\<rparr>]
   \<and> unique
       [\<lparr>ecosystem = ''npm'', name = JStr ''lodash'', version = JStr ''4.17.21'',
         dev = JBool False, lockfile_source = ''a/package-lock.json''\<rparr>,
       \<lparr>ecosystem = ''npm'', name = JStr ''express'', version = JStr ''4.18.0'',
         dev = JBool False, lockfile_source = ''a/package-lock.json''\<rparr>]
     = Inr (dedup_by_triple
       [\<lparr>ecosystem = ''npm'', name = JStr ''lodash'', version = JStr ''4.17.21'',
         dev = JBool False, lockfile_source = ''a/package-lock.json''\<rparr>,
       \<lparr>ecosystem = ''npm'', name = JStr ''express'', version = JStr ''4.18.0'',
         dev = JBool False, lockfile_source = ''a/package-lock.json''\<rparr>])
   \<and> dep_key \<lparr>ecosystem = ''npm'', name = JStr ''lodash'', version = JStr ''4.17.21'',
         dev = JBool True, lockfile_source = ''b/package-lock.json''\<rparr>
     = Inr ''npm:lodash:4.17.21''
   \<and> unique
       [\<lparr>ecosystem = ''composer'', name = JStr ''a/b'',
          version = JArr [JStr ''1'', JObj [(''toString'', JNull)]], dev = JBool False,
          lockfile_source = ''composer.lock''\<rparr>]
     = Inl TypeError"
proof -
  have kept: "unique
     ([\<lparr>ecosystem = ''npm'', name = JStr ''lodash'', version = JStr ''4.17.21'',
         dev = JBool False, lockfile_source = ''a/package-lock.json''\<rparr>,
       \<lparr>ecosystem = ''npm'', name = JStr ''express'', version = JStr ''4.18.0'',
         dev = JBool False, lockfile_source = ''a/package-lock.json''\<rparr>]
      @ [\<lparr>ecosystem = ''npm'', name = JStr ''lodash'', version = JStr ''4.17.21'',
         dev = JBool True, lockfile_source = ''b/package-lock.json''\<rparr>])
   = Inr [\<lparr>ecosystem = ''npm'', name = JStr ''lodash'', version = JStr ''4.17.21'',
         dev = JBool False, lockfile_source = ''a/package-lock.json''\<rparr>,
       \<lparr>ecosystem = ''npm'', name = JStr ''express'', version = JStr ''4.18.0'',
         dev = JBool False, lockfile_source = ''a/package-lock.json''\<rparr>]
   \<and> unique
       [\<lparr>ecosystem = ''npm'', name = JStr ''lodash'', version = JStr ''4.17.21'',
         dev = JBool False, lockfile_source = ''a/package-lock.json''\<rparr>,
       \<lparr>ecosystem = ''npm'', name = JStr ''express'', version = JStr ''4.18.0'',
         dev = JBool False, lockfile_source = ''a/package-lock.json''\<rparr>]
     = Inr (dedup_by_triple
       [\<lparr>ecosystem = ''npm'', name = JStr ''lodash'', version = JStr ''4.17.21'',
         dev = JBool False, lockfile_source = ''a/package-lock.json''\<rparr>,
       \<lparr>ecosystem = ''npm'', name = JStr ''express'', version = JStr ''4.18.0'',
         dev = JBool False, lockfile_source = ''a/package-lock.json''\<rparr>])
   \<and> dep_key \<lparr>ecosystem = ''npm'', name = JStr ''lodash'', version = JStr ''4.17.21'',
         dev = JBool True, lockfile_source = ''b/package-lock.json''\<rparr>
     = Inr ''npm:lodash:4.17.21''"
    using
    unique_first_of_each_key
    [of "[\<lparr>ecosystem = ''npm'', name = JStr ''lodash'', version = JStr ''4.17.21'',
            dev = JBool False, lockfile_source = ''a/package-lock.json''\<rparr>,
          \<lparr>ecosystem = ''npm'', name = JStr ''express'', version = JStr ''4.18.0'',
            dev = JBool False, lockfile_source = ''a/package-lock.json''\<rparr>]"
        "\<lparr>ecosystem = ''npm'', name = JStr ''lodash'', version = JStr ''4.17.21'',
            dev = JBool True, lockfile_source = ''b/package-lock.json''\<rparr>"
        "''npm:lodash:4.17.21''" "''lodash''" "''4.17.21''"
        "\<lparr>ecosystem = ''npm'', name = JStr ''lodash'', version = JStr ''4.17.21'',
            dev = JBool False, lockfile_source = ''a/package-lock.json''\<rparr>"]
  by (simp add: dep_key_def key_text_def triple_def unique_def dedup_by_triple_def)
  have raised: "unique
       [\<lparr>ecosystem = ''composer'', name = JStr ''a/b'',
          version = JArr [JStr ''1'', JObj [(''toString'', JNull)]], dev = JBool False,
          lockfile_source = ''composer.lock''\<rparr>]
     = Inl TypeError"
    using unique_first_of_each_key
      [where ds = "[\<lparr>ecosystem = ''composer'', name = JStr ''a/b'',
          version = JArr [JStr ''1'', JObj [(''toString'', JNull)]], dev = JBool False,
          lockfile_source = ''composer.lock''\<rparr>]",
        THEN conjunct2, THEN conjunct2, THEN conjunct2, THEN conjunct2, THEN conjunct2,
        THEN conjunct2]
    by (simp add: dep_key_def)
  from kept raised show ?thesis by simp
qed

section \<open>Splitting an entry into kind and path\<close>

lemma find_sub_char_absent: "c \<notin> set k \<Longrightarrow> find_sub [c] k = None"
  by (induction k) auto

lemma find_sub_char_first: "c \<notin> set k \<Longrightarrow> find_sub [c] (k @ c # p) = Some (k, p)"
  by (induction k) auto

lemma split_str_char_absent: "c \<notin> set k \<Longrightarrow> split_str [c] k = [k]"
  by (simp add: split_str.simps find_sub_char_absent)

lemma split_str_char_first: "c \<notin> set k \<Longrightarrow> split_str [c] (k @ c # p) = k # split_str [c] p"
  by (subst split_str.simps) (simp add: find_sub_char_first)

lemma split_str_not_Nil: "sep \<noteq> [] \<Longrightarrow> split_str sep s \<noteq> []"
  by (subst split_str.simps) (simp split: option.splits)

lemma join_Cons: "ys \<noteq> [] \<Longrightarrow> join sep (x # ys) = x @ sep @ join sep ys"
  by (cases ys) auto

lemma join_split_char: "join [c] (split_str [c] s) = s"
proof (induction s rule: length_induct)
  case (1 s)
  show ?case
  proof (cases "c \<in> set s")
    case False
    then show ?thesis by (simp add: split_str_char_absent)
  next
    case True
    then obtain k p where s: "s = k @ c # p" and k: "c \<notin> set k"
      by (auto dest: split_list_first)
    have "length p < length s" using s by simp
    with 1 have IH: "join [c] (split_str [c] p) = p" by blast
    have ne: "split_str [c] p \<noteq> []" by (rule split_str_not_Nil) simp
    show ?thesis
      unfolding s using k IH by (simp add: split_str_char_first join_Cons [OF ne])
  qed
qed

lemma entry_type_path:
  "CHR '':'' \<notin> set k \<Longrightarrow> entry_type (k @ '':'' @ p) = k \<and> entry_path (k @ '':'' @ p) = p"
  by (simp add: entry_type_def entry_path_def split_str_char_first join_split_char)

lemma entry_no_colon: "CHR '':'' \<notin> set e \<Longrightarrow> entry_type e = e \<and> entry_path e = []"
  by (simp add: entry_type_def entry_path_def split_str_char_absent)

lemmas req_eval =
  requirements_line_def trim_def req_match_def req_extras_def Let_def startsWith_def
  is_space_def req_name_char_def is_alnum_def in_range_def req_op_char_def req_version_char_def
  toLowerCase_def lower_char_def upper_chars_def lower_chars_def is_line_terminator_def
  split_str.simps

lemmas go_sum_eval =
  parseGoSum_def finish_def read_text_def go_sum_line_def trim_def Let_def is_space_def
  split_str.simps split_ws.simps endsWith_def suffix_to_prefix replace_first_def

section \<open>The dispatcher\<close>

lemma process_entries_append:
  "process_entries w (xs @ ys) =
     (fst (process_entries w xs) @ fst (process_entries w ys),
      snd (process_entries w xs) @ snd (process_entries w ys))"
  by (induction xs) (auto split: prod.splits)

lemma process_entries_Cons:
  "process_entries w (e # es) =
     (fst (process_entry w e) @ fst (process_entries w es),
      snd (process_entry w e) @ snd (process_entries w es))"
  by (simp split: prod.splits)

lemma finish_log: "snd (finish filePath r) \<noteq> []"
  by (auto simp: finish_def split: prod.splits option.splits)

lemma run_parser_prints: "snd (run_parser w p filePath) \<noteq> []"
  by (cases p)
    (simp_all add: finish_log parseNpmLockfile_def parseRequirements_def parsePoetryLock_def
      parseGoSum_def parseGoMod_def parseGemfileLock_def parseCargoLock_def
      parseComposerLock_def parseNugetLock_def parseMavenPom_def)

text \<open>
  C6: a requirements entry whose file holds the five lines \<^verbatim>\<open>flask==2.0.0\<close>,
  \<^verbatim>\<open>requests>=2.28.0\<close>, \<^verbatim>\<open># comment\<close>, \<^verbatim>\<open>-r other.txt\<close>, \<^verbatim>\<open>pytest==7.0.0\<close>
  yields exactly three records, flask at 2.0.0, requests at 2.28.0 and pytest at 7.0.0,
  each with ecosystem pypi (whatever the dev-inclusion flag, which this parser does not
  read; the dev field of the three records is the path heuristic). The dispatcher hands
  the entry \<^verbatim>\<open>requirements:<path>\<close> to this parser. A line that, trimmed, begins with
  \<^verbatim>\<open>#\<close> or \<^verbatim>\<open>-\<close> yields no record.
\<close>

theorem requirements_example:
  assumes "readFileSync w p =
    Some ''flask==2.0.0\<newline>requests>=2.28.0\<newline># comment\<newline>-r other.txt\<newline>pytest==7.0.0''"
  shows "parseRequirements w p =
      ([\<lparr>ecosystem = ''pypi'', name = JStr ''flask'', version = JStr ''2.0.0'',
          dev = JBool (str_includes p ''dev'' \<or> str_includes p ''test''), lockfile_source = p\<rparr>,
        \<lparr>ecosystem = ''pypi'', name = JStr ''requests'', version = JStr ''2.28.0'',
          dev = JBool (str_includes p ''dev'' \<or> str_includes p ''test''), lockfile_source = p\<rparr>,
        \<lparr>ecosystem = ''pypi'', name = JStr ''pytest'', version = JStr ''7.0.0'',
          dev = JBool (str_includes p ''dev'' \<or> str_includes p ''test''), lockfile_source = p\<rparr>],
       [Parsed 3 p])
     \<and> (p \<noteq> [] \<longrightarrow> process_entry w (''requirements:'' @ p) = parseRequirements w p)
     \<and> (startsWith (trim line) ''#'' \<or> startsWith (trim line) ''-''
          \<longrightarrow> requirements_line p line = [])"
proof -
  have a: "parseRequirements w p =
      ([\<lparr>ecosystem = ''pypi'', name = JStr ''flask'', version = JStr ''2.0.0'',
          dev = JBool (str_includes p ''dev'' \<or> str_includes p ''test''), lockfile_source = p\<rparr>,
        \<lparr>ecosystem = ''pypi'', name = JStr ''requests'', version = JStr ''2.28.0'',
          dev = JBool (str_includes p ''dev'' \<or> str_includes p ''test''), lockfile_source = p\<rparr>,
        \<lparr>ecosystem = ''pypi'', name = JStr ''pytest'', version = JStr ''7.0.0'',
          dev = JBool (str_includes p ''dev'' \<or> str_includes p ''test''), lockfile_source = p\<rparr>],
       [Parsed 3 p])"
    using assms by (simp add: parseRequirements_def finish_def read_text_def req_eval)
  have tp: "entry_type (''requirements'' @ '':'' @ p) = ''requirements''
      \<and> entry_path (''requirements'' @ '':'' @ p) = p"
    by (rule entry_type_path) simp
  have b: "process_entry w (''requirements:'' @ p) = parseRequirements w p" if "p \<noteq> []"
    using that tp by (simp add: process_entry_def select_parser_def)
  have c: "requirements_line p line = []"
    if "startsWith (trim line) ''#'' \<or> startsWith (trim line) ''-''"
    using that by (auto simp: requirements_line_def Let_def)
  from a b c show ?thesis by blast
qed

theorem requirements_example_witness:
  "process_entry requirements_world ''requirements:requirements.txt'' =
      ([\<lparr>ecosystem = ''pypi'', name = JStr ''flask'', version = JStr ''2.0.0'',
          dev = JBool False, lockfile_source = ''requirements.txt''\<rparr>,
        \<lparr>ecosystem = ''pypi'', name = JStr ''requests'', version = JStr ''2.28.0'',
          dev = JBool False, lockfile_source = ''requirements.txt''\<rparr>,
        \<lparr>ecosystem = ''pypi'', name = JStr ''pytest'', version = JStr ''7.0.0'',
          dev = JBool False, lockfile_source = ''requirements.txt''\<rparr>],
       [Parsed 3 ''requirements.txt''])
   \<and> requirements_line ''requirements.txt'' ''# comment'' = []
   \<and> requirements_line ''requirements.txt'' ''-r other.txt'' = []"
  using requirements_example [of requirements_world "''requirements.txt''" "''# comment''"]
    requirements_example [of requirements_world "''requirements.txt''" "''-r other.txt''"]
  by (simp add: requirements_world_def example_world_def str_includes_def trim_def startsWith_def
      is_space_def)

text \<open>
  C10: an entry whose path portion after the first colon is empty, be it that the entry
  has no colon or that nothing follows its first colon, is skipped silently: it
  contributes no record and prints nothing. Every parser call prints a line and the
  default branch of the switch prints a warning, so the empty output says that neither
  happened. The entries before and after it are processed as if it were not there.
\<close>

theorem empty_path_entry_skipped:
  assumes "CHR '':'' \<notin> set k" and "entry = k \<or> entry = k @ '':''"
  shows "entry_path entry = []
     \<and> process_entry w entry = ([], [])
     \<and> snd (run_parser w p filePath) \<noteq> []
     \<and> process_entries w (before @ entry # rest) =
         (fst (process_entries w before) @ fst (process_entries w rest),
          snd (process_entries w before) @ snd (process_entries w rest))"
proof -
  have path: "entry_path entry = []"
  proof (cases "entry = k")
    case True
    with assms(1) show ?thesis by (simp add: entry_no_colon)
  next
    case False
    with assms(2) have "entry = k @ '':'' @ []" by simp
    with assms(1) show ?thesis using entry_type_path [of k "[]"] by simp
  qed
  then have skip: "process_entry w entry = ([], [])"
    by (simp add: process_entry_def)
  have "process_entries w (before @ entry # rest) =
         (fst (process_entries w before) @ fst (process_entries w rest),
          snd (process_entries w before) @ snd (process_entries w rest))"
    by (simp add: process_entries_append process_entries_Cons skip del: process_entries.simps)
  with path skip run_parser_prints show ?thesis by blast
qed

theorem empty_path_entry_skipped_witness:
  "process_entry go_world ''npm'' = ([], [])
   \<and> process_entry go_world ''go:'' = ([], [])
   \<and> process_entries go_world ([''npm''] @ ''go:'' # [''go:go.sum'']) =
       ([\<lparr>ecosystem = ''go'', name = JStr ''github.com/pkg/errors'', version = JStr ''v0.9.1'',
           dev = JBool False, lockfile_source = ''go.sum''\<rparr>],
        [Parsed 1 ''go.sum''])"
  using empty_path_entry_skipped [of "''npm''" "''npm''" go_world GoSum "''go.sum''" "[]" "[]"]
    empty_path_entry_skipped [of "''go''" "''go:''" go_world GoSum "''go.sum''" "[''npm'']"
      "[''go:go.sum'']"]
  by (simp add: go_world_def example_world_def process_entry_def entry_path_def entry_type_def
      select_parser_def go_sum_eval)

text \<open>
  C5, as stated: every entry of kind \<^verbatim>\<open>go\<close> goes to one of the two Go parsers, and
  every entry of an unrecognized kind is skipped with a warning. Not so when the path is
  empty: the entry \<^verbatim>\<open>bogus\<close> has an unrecognized kind and prints no warning, and the
  entry \<^verbatim>\<open>go:\<close> reaches neither Go parser. The guard \<^verbatim>\<open>if (!filePath) continue\<close>
  stands before the switch.
\<close>

theorem unknown_kind_without_path_no_warning:
  "process_entry go_world ''bogus'' = ([], [])
   \<and> select_parser (entry_type ''bogus'') (entry_path ''bogus'') = None
   \<and> process_entry go_world ''go:'' = ([], [])
   \<and> entry_type ''go:'' = ''go''"
  by (simp add: process_entry_def entry_path_def entry_type_def select_parser_def split_str.simps)

text \<open>
  C5, amended: for every entry \<^verbatim>\<open>kind:path\<close> with a non-empty path, a kind \<^verbatim>\<open>go\<close>
  invokes the go.sum parser exactly when the path ends with \<^verbatim>\<open>go.sum\<close> and the
  go.mod parser otherwise; a kind that is none of the nine recognized tags is skipped
  with a warning and contributes no record; and the run continues: the entries before
  and after contribute what they contribute on their own.
\<close>

theorem dispatch_with_path:
  assumes "CHR '':'' \<notin> set kind" and "filePath \<noteq> []"
  shows "(kind = ''go'' \<longrightarrow>
            process_entry w (kind @ '':'' @ filePath) =
              (if endsWith filePath ''go.sum'' then parseGoSum w filePath
               else parseGoMod w filePath))
     \<and> (kind \<notin> set recognized_kinds \<longrightarrow>
            process_entry w (kind @ '':'' @ filePath) = ([], [UnknownType kind]))
     \<and> process_entries w (before @ (kind @ '':'' @ filePath) # rest) =
         (fst (process_entries w before) @ fst (process_entry w (kind @ '':'' @ filePath))
            @ fst (process_entries w rest),
          snd (process_entries w before) @ snd (process_entry w (kind @ '':'' @ filePath))
            @ snd (process_entries w rest))"
proof -
  have tp: "entry_type (kind @ '':'' @ filePath) = kind"
    "entry_path (kind @ '':'' @ filePath) = filePath"
    using entry_type_path [OF assms(1), of filePath] by simp_all
  have go: "process_entry w (kind @ '':'' @ filePath) =
      (if endsWith filePath ''go.sum'' then parseGoSum w filePath else parseGoMod w filePath)"
    if "kind = ''go''"
    using that assms(2) tp by (simp add: process_entry_def select_parser_def)
  have unknown: "process_entry w (kind @ '':'' @ filePath) = ([], [UnknownType kind])"
    if "kind \<notin> set recognized_kinds"
    using that assms(2) tp by (simp add: process_entry_def select_parser_def recognized_kinds_def)
  have rest: "process_entries w (before @ (kind @ '':'' @ filePath) # rest) =
         (fst (process_entries w before) @ fst (process_entry w (kind @ '':'' @ filePath))
            @ fst (process_entries w rest),
          snd (process_entries w before) @ snd (process_entry w (kind @ '':'' @ filePath))
            @ snd (process_entries w rest))"
    by (simp add: process_entries_append process_entries_Cons del: process_entries.simps)
  from go unknown rest show ?thesis by blast
qed

theorem dispatch_with_path_witness:
  "process_entry go_world ''go:go.sum'' = parseGoSum go_world ''go.sum''
   \<and> process_entry go_world ''go:sub/go.mod'' = parseGoMod go_world ''sub/go.mod''
   \<and> process_entry go_world ''pip:requirements.txt'' = ([], [UnknownType ''pip''])
   \<and> process_entries go_world ([''pip:requirements.txt''] @ ''go:go.sum'' # []) =
       ([\<lparr>ecosystem = ''go'', name = JStr ''github.com/pkg/errors'', version = JStr ''v0.9.1'',
           dev = JBool False, lockfile_source = ''go.sum''\<rparr>],
        [UnknownType ''pip'', Parsed 1 ''go.sum''])"
  using dispatch_with_path [of "''go''" "''go.sum''" go_world "[''pip:requirements.txt'']" "[]"]
    dispatch_with_path [of "''go''" "''sub/go.mod''" go_world "[]" "[]"]
    dispatch_with_path [of "''pip''" "''requirements.txt''" go_world "[]" "[]"]
  by (simp add: recognized_kinds_def endsWith_def suffix_to_prefix go_world_def example_world_def
      go_sum_eval)

section \<open>Errors inside a parser\<close>









section \<open>The dev field of the records\<close>

text \<open>
  No parser leaves the dev field of a record undefined, so the entry written for a record
  always has the key dev, with the record's value; it has the key lockfile_source
  unless the source is the empty string.
\<close>

lemma for_each_member:
  "r \<in> set (fst (for_each body xs)) \<Longrightarrow> \<exists>x. x \<in> set xs \<and> r \<in> set (fst (body x))"
proof (induction xs)
  case Nil
  then show ?case by simp
next
  case (Cons x xs)
  obtain ds e where bx: "body x = (ds, e)" by (cases "body x")
  obtain ds' e' where rest: "for_each body xs = (ds', e')" by (cases "for_each body xs")
  from Cons.prems bx rest have "r \<in> set ds \<or> r \<in> set ds'"
    by (cases e) (auto simp: prepend_def)
  then show ?case
  proof
    assume "r \<in> set ds"
    with bx show ?thesis by auto
  next
    assume "r \<in> set ds'"
    with rest Cons.IH show ?thesis by auto
  qed
qed

lemma for_each_records:
  assumes "r \<in> set (fst (for_each body xs))"
    and "\<And>x r. x \<in> set xs \<Longrightarrow> r \<in> set (fst (body x)) \<Longrightarrow> P r"
  shows "P r"
  using for_each_member [OF assms(1)] assms(2) by blast

lemma and_then_records:
  "r \<in> set (fst (and_then a b)) \<Longrightarrow> r \<in> set (fst a) \<or> r \<in> set (fst b)"
  by (auto simp: and_then_def prepend_def split: prod.splits option.splits)

lemma prepend_records:
  "r \<in> set (fst (prepend ds b)) \<Longrightarrow> r \<in> set ds \<or> r \<in> set (fst b)"
  by (auto simp: prepend_def split: prod.splits)

lemma parseDepsV1_dev:
  "r \<in> set (fst (parseDepsV1 include_dev filePath deps isDev)) \<Longrightarrow> dev r = JBool isDev"
proof (induction include_dev filePath deps isDev arbitrary: r rule: parseDepsV1.induct)
  case (1 include_dev filePath deps isDev)
  show ?case
  proof (cases "object_entries deps")
    case (Inl err)
    with "1.prems" show ?thesis by (simp add: parseDepsV1.simps)
  next
    case (Inr entries)
    let ?body = "\<lambda>entry.
           case get_prop (snd entry) ''version'' of
             Inl err \<Rightarrow> ([], Some err)
           | Inr info_version \<Rightarrow>
              if \<not> truthy info_version then ([], None)
              else if isDev \<and> \<not> include_dev then ([], None)
              else prepend
                [\<lparr>ecosystem = ''npm'', name = JStr (fst entry), version = info_version,
                   dev = JBool isDev, lockfile_source = filePath\<rparr>]
                (case get_prop (snd entry) ''dependencies'' of
                   Inl err \<Rightarrow> ([], Some err)
                 | Inr info_dependencies \<Rightarrow>
                    if truthy info_dependencies
                    then parseDepsV1 include_dev filePath info_dependencies isDev
                    else ([], None))"
    from "1.prems" Inr have mem: "r \<in> set (fst (for_each ?body entries))"
      by (simp add: parseDepsV1.simps)
    show ?thesis
    proof (rule for_each_records [OF mem])
      fix entry r'
      assume e: "entry \<in> set entries" and r': "r' \<in> set (fst (?body entry))"
      show "dev r' = JBool isDev"
      proof (cases "get_prop (snd entry) ''version''")
        case (Inl err)
        with r' show ?thesis by simp
      next
        case v: (Inr info_version)
        show ?thesis
        proof (cases "get_prop (snd entry) ''dependencies''")
          case (Inl err)
          with r' v show ?thesis by (auto simp: prepend_def split: if_splits)
        next
          case d: (Inr info_dependencies)
          show ?thesis
          proof (cases "truthy info_version \<and> \<not> (isDev \<and> \<not> include_dev) \<and> truthy info_dependencies")
            case True
            with r' v d have "r' = \<lparr>ecosystem = ''npm'', name = JStr (fst entry),
                  version = info_version, dev = JBool isDev, lockfile_source = filePath\<rparr>
                \<or> r' \<in> set (fst (parseDepsV1 include_dev filePath info_dependencies isDev))"
              by (auto dest: prepend_records)
            then show ?thesis
            proof
              assume "r' = \<lparr>ecosystem = ''npm'', name = JStr (fst entry),
                  version = info_version, dev = JBool isDev, lockfile_source = filePath\<rparr>"
              then show ?thesis by simp
            next
              assume "r' \<in> set (fst (parseDepsV1 include_dev filePath info_dependencies isDev))"
              with "1.IH" [OF Inr e v _ _ d] True show ?thesis by simp
            qed
          next
            case False
            with r' v d show ?thesis by (auto simp: prepend_def split: if_splits)
          qed
        qed
      qed
    qed
  qed
qed


lemma requirements_line_dev: "r \<in> set (requirements_line filePath line) \<Longrightarrow> dev r \<noteq> JUndefined"
proof -
  assume r: "r \<in> set (requirements_line filePath line)"
  have "requirements_line filePath line = []
      \<or> (\<exists>n v. requirements_line filePath line =
            [\<lparr>ecosystem = ''pypi'', name = n, version = v,
              dev = JBool (str_includes filePath ''dev'' \<or> str_includes filePath ''test''),
              lockfile_source = filePath\<rparr>])"
    unfolding requirements_line_def Let_def
    by (simp split: option.split prod.split)
  with r show ?thesis by auto
qed

lemma poetry_block_dev: "r \<in> set (poetry_block include_dev filePath block) \<Longrightarrow> dev r \<noteq> JUndefined"
  by (auto simp: poetry_block_def Let_def split: option.splits if_splits)

lemma go_sum_line_dev: "r \<in> set (go_sum_line filePath line) \<Longrightarrow> dev r \<noteq> JUndefined"
  by (auto simp: go_sum_line_def Let_def split: if_splits)

lemma go_mod_candidate_dev: "r \<in> set (go_mod_candidate filePath c) \<Longrightarrow> dev r \<noteq> JUndefined"
  by (auto simp: go_mod_candidate_def Let_def split: option.splits if_splits)

lemma go_mod_lines_dev: "r \<in> set (go_mod_lines filePath b ls) \<Longrightarrow> dev r \<noteq> JUndefined"
proof (induction ls arbitrary: b)
  case Nil
  then show ?case by simp
next
  case (Cons l ls)
  then show ?case
    by (auto simp: Let_def split: if_splits dest: go_mod_candidate_dev)
qed

lemma gemfile_line_dev: "r \<in> set (gemfile_line filePath line) \<Longrightarrow> dev r \<noteq> JUndefined"
  by (auto simp: gemfile_line_def Let_def split: option.splits if_splits)

lemma gemfile_lines_dev: "r \<in> set (gemfile_lines filePath b ls) \<Longrightarrow> dev r \<noteq> JUndefined"
proof (induction ls arbitrary: b)
  case Nil
  then show ?case by simp
next
  case (Cons l ls)
  then show ?case
    by (auto split: if_splits dest: gemfile_line_dev)
qed

lemma cargo_block_dev: "r \<in> set (cargo_block filePath block) \<Longrightarrow> dev r \<noteq> JUndefined"
  by (auto simp: cargo_block_def split: option.splits)

lemma maven_block_dev: "r \<in> set (maven_block include_dev filePath block) \<Longrightarrow> dev r \<noteq> JUndefined"
  by (auto simp: maven_block_def Let_def split: option.splits if_splits)

lemma npm_package_dev:
  "r \<in> set (fst (npm_package include_dev filePath entry)) \<Longrightarrow> dev r \<noteq> JUndefined"
  by (cases entry) (auto simp: npm_package_def split: sum.splits if_splits)

lemma npm_lock_dev: "r \<in> set (fst (npm_lock include_dev filePath lock)) \<Longrightarrow> dev r \<noteq> JUndefined"
proof -
  assume r: "r \<in> set (fst (npm_lock include_dev filePath lock))"
  have v1: "dev x \<noteq> JUndefined"
    if "x \<in> set (fst (parseDepsV1 include_dev filePath deps isDev))" for x deps isDev
    using parseDepsV1_dev [OF that] by simp
  from r show ?thesis
    by (auto simp: npm_lock_def split: sum.splits if_splits
        dest!: and_then_records for_each_member dest: npm_package_dev v1)
qed

lemma composer_package_dev:
  "r \<in> set (fst (composer_package is_dev filePath pkg)) \<Longrightarrow> dev r \<noteq> JUndefined"
  by (auto simp: composer_package_def split: sum.splits if_splits)

lemma composer_lock_dev:
  "r \<in> set (fst (composer_lock include_dev filePath lock)) \<Longrightarrow> dev r \<noteq> JUndefined"
  by (auto simp: composer_lock_def split: sum.splits if_splits
      dest!: and_then_records for_each_member dest: composer_package_dev)

lemma nuget_lock_dev: "r \<in> set (fst (nuget_lock filePath lock)) \<Longrightarrow> dev r \<noteq> JUndefined"
  by (auto simp: nuget_lock_def nuget_target_def nuget_package_def Let_def
      split: sum.splits if_splits)

lemma finish_records: "fst (finish filePath r) = fst r"
  by (auto simp: finish_def split: prod.splits option.splits)

lemma read_text_records:
  "r \<in> set (fst (read_text w filePath body)) \<Longrightarrow>
     \<exists>content. readFileSync w filePath = Some content \<and> r \<in> set (fst (body content))"
  by (auto simp: read_text_def split: option.splits)

lemma read_json_records:
  "r \<in> set (fst (read_json w filePath body)) \<Longrightarrow> \<exists>lock. r \<in> set (fst (body lock))"
  by (auto simp: read_json_def dest!: read_text_records split: option.splits)

lemma run_parser_dev: "r \<in> set (fst (run_parser w p filePath)) \<Longrightarrow> dev r \<noteq> JUndefined"
proof (cases p)
  case NpmLockfile
  assume "r \<in> set (fst (run_parser w p filePath))"
  with NpmLockfile show ?thesis
    by (auto simp: parseNpmLockfile_def finish_records dest!: read_json_records dest: npm_lock_dev)
next
  case Requirements
  assume "r \<in> set (fst (run_parser w p filePath))"
  with Requirements show ?thesis
    by (auto simp: parseRequirements_def finish_records dest!: read_text_records
        dest: requirements_line_dev)
next
  case PoetryLock
  assume "r \<in> set (fst (run_parser w p filePath))"
  with PoetryLock show ?thesis
    by (auto simp: parsePoetryLock_def finish_records dest!: read_text_records
        dest: poetry_block_dev)
next
  case GoSum
  assume "r \<in> set (fst (run_parser w p filePath))"
  with GoSum show ?thesis
    by (auto simp: parseGoSum_def finish_records dest!: read_text_records dest: go_sum_line_dev)
next
  case GoMod
  assume "r \<in> set (fst (run_parser w p filePath))"
  with GoMod show ?thesis
    by (auto simp: parseGoMod_def finish_records dest!: read_text_records dest: go_mod_lines_dev)
next
  case GemfileLock
  assume "r \<in> set (fst (run_parser w p filePath))"
  with GemfileLock show ?thesis
    by (auto simp: parseGemfileLock_def finish_records dest!: read_text_records
        dest: gemfile_lines_dev)
next
  case CargoLock
  assume "r \<in> set (fst (run_parser w p filePath))"
  with CargoLock show ?thesis
    by (auto simp: parseCargoLock_def finish_records dest!: read_text_records
        dest: cargo_block_dev)
next
  case ComposerLock
  assume "r \<in> set (fst (run_parser w p filePath))"
  with ComposerLock show ?thesis
    by (auto simp: parseComposerLock_def finish_records dest!: read_json_records
        dest: composer_lock_dev)
next
  case NugetLock
  assume "r \<in> set (fst (run_parser w p filePath))"
  with NugetLock show ?thesis
    by (auto simp: parseNugetLock_def finish_records dest!: read_json_records
        dest: nuget_lock_dev)
next
  case MavenPom
  assume "r \<in> set (fst (run_parser w p filePath))"
  with MavenPom show ?thesis
    by (auto simp: parseMavenPom_def maven_records_def finish_records dest!: read_text_records
        dest: maven_block_dev)
qed

lemma inventory_entry_keys:
  "dev r \<noteq> JUndefined \<Longrightarrow>
     map_of (entries_of (inventory_entry r)) ''dev'' = Some (dev r)
     \<and> (map_of (entries_of (inventory_entry r)) ''lockfile_source'' =
          (if lockfile_source r = [] then None else Some (JStr (lockfile_source r))))"
  by (simp add: inventory_entry_def entries_of_def)

section \<open>Errors inside a parser and the rest of the run\<close>






















section \<open>Evaluations at inputs where the program and its specification part\<close>

lemmas main_eval =
  dependencies_written_def inventory_written_def main_def LOCKFILES_def env_or_def process_entry_def entry_path_def
  entry_type_def select_parser_def unique_def dep_key_def writeInventory_def inventory_entry_def
  prop_of_def

text \<open>
  C1: with the dev-inclusion flag false, every record a parser classifies as dev is to be
  dropped from its output. \<^verbatim>\<open>parseRequirements\<close> never reads the flag, unlike the
  npm, poetry, composer and maven parsers: with \<^verbatim>\<open>INCLUDE_DEV=false\<close> and the entry
  \<^verbatim>\<open>requirements:requirements-dev.txt\<close>, whose path contains \<^verbatim>\<open>dev\<close>, the record of
  pytest is classified dev and still written to the inventory.
\<close>

theorem requirements_keeps_dev_records:
  "INCLUDE_DEV dev_requirements_world = False
   \<and> dependencies_written dev_requirements_world =
       Inr (JArr [JObj [(''ecosystem'', JStr ''pypi''), (''name'', JStr ''pytest''),
                        (''version'', JStr ''7.0.0''), (''dev'', JBool True),
                        (''lockfile_source'', JStr ''requirements-dev.txt'')]])"
  by (simp add: dev_requirements_world_def example_world_def INCLUDE_DEV_def main_eval
      parseRequirements_def finish_def read_text_def req_eval str_includes_def strip_clause.simps)

lemmas nuget_eval =
  parseNugetLock_def finish_def read_text_def read_json_def nuget_lock_def nuget_target_def
  nuget_package_def nuget_version_def entries_of_def prop_of_def Let_def

text \<open>
  C2: every emitted record is to have a non-empty ecosystem, name and version. The
  requirements parser replaces a missing version by \<^verbatim>\<open>*\<close> before it strips the
  text from the first comma on, and does not test the result: the line
  \<^verbatim>\<open>flask==,2.0.0\<close> yields a record with the empty version. The NuGet parser does not
  test the name, as the Go, RubyGems, Composer and Maven parsers do: a package keyed by
  the empty string yields a record with the empty name.
\<close>

theorem empty_version_and_name_emitted:
  "fst (process_entry empty_field_world ''requirements:requirements.txt'') =
     [\<lparr>ecosystem = ''pypi'', name = JStr ''flask'', version = JStr '''', dev = JBool False,
        lockfile_source = ''requirements.txt''\<rparr>]
   \<and> fst (process_entry empty_field_world ''nuget:packages.lock.json'') =
     [\<lparr>ecosystem = ''nuget'', name = JStr '''', version = JStr ''13.0.1'', dev = JBool False,
        lockfile_source = ''packages.lock.json''\<rparr>]"
  by (simp add: empty_field_world_def example_world_def process_entry_def entry_path_def
      entry_type_def select_parser_def parseRequirements_def req_eval str_includes_def
      nuget_eval)

lemmas poetry_eval =
  parsePoetryLock_def finish_def read_text_def poetry_block_def toml_value_def toml_value_at_def
  is_line_terminator_def is_space_def Let_def split_str.simps toLowerCase_def lower_char_def
  upper_chars_def lower_chars_def INCLUDE_DEV_def

text \<open>
  C9: the dev field of every record is to be true or false. In \<^verbatim>\<open>parsePoetryLock\<close>,
  \<^verbatim>\<open>categoryMatch && categoryMatch[1] === 'dev'\<close> is \<^verbatim>\<open>null\<close> for a package with no
  category line, and \<^verbatim>\<open>null !== undefined\<close>: the record's dev is \<^verbatim>\<open>null\<close>, and the
  inventory's entry has the key dev with the value \<^verbatim>\<open>null\<close>.
\<close>

theorem poetry_dev_null:
  "fst (parsePoetryLock poetry_world ''poetry.lock'') =
     [\<lparr>ecosystem = ''pypi'', name = JStr ''requests'', version = JStr ''2.28.0'', dev = JNull,
        lockfile_source = ''poetry.lock''\<rparr>]
   \<and> dependencies_written poetry_world =
       Inr (JArr [JObj [(''ecosystem'', JStr ''pypi''), (''name'', JStr ''requests''),
                        (''version'', JStr ''2.28.0''), (''dev'', JNull),
                        (''lockfile_source'', JStr ''poetry.lock'')]])"
  by (simp add: poetry_world_def example_world_def main_eval poetry_eval)

section \<open>What the written dependencies depend on\<close>

lemma run_parser_cong:
  assumes "readFileSync w1 filePath = readFileSync w2 filePath"
    and "INCLUDE_DEV w1 = INCLUDE_DEV w2" and "JSON_parse w1 = JSON_parse w2"
  shows "run_parser w1 p filePath = run_parser w2 p filePath"
  using assms
  by (cases p)
    (simp_all add: read_text_def read_json_def parseNpmLockfile_def
      parseRequirements_def parsePoetryLock_def parseGoSum_def parseGoMod_def
      parseGemfileLock_def parseCargoLock_def parseComposerLock_def parseNugetLock_def
      parseMavenPom_def)

lemma process_entry_cong:
  assumes "readFileSync w1 (entry_path entry) = readFileSync w2 (entry_path entry)"
    and "INCLUDE_DEV w1 = INCLUDE_DEV w2" and "JSON_parse w1 = JSON_parse w2"
  shows "process_entry w1 entry = process_entry w2 entry"
  using run_parser_cong [OF assms] by (simp add: process_entry_def split: option.splits)

lemma process_entries_cong:
  assumes "list_all (\<lambda>entry. readFileSync w1 (entry_path entry) = readFileSync w2 (entry_path entry))
      entries"
    and "INCLUDE_DEV w1 = INCLUDE_DEV w2" and "JSON_parse w1 = JSON_parse w2"
  shows "process_entries w1 entries = process_entries w2 entries"
  using assms(1)
proof (induction entries)
  case Nil
  show ?case by simp
next
  case (Cons entry rest)
  then have "process_entry w1 entry = process_entry w2 entry"
    using process_entry_cong [OF _ assms(2,3)] by simp
  moreover have "process_entries w1 rest = process_entries w2 rest"
    using Cons by simp
  ultimately show ?case by simp
qed

text \<open>
  C8: the pipeline is deterministic. Two runs with the same lockfile list and the same
  dev-inclusion flag, in which every file named by the list has the same content (or is
  unreadable in both), write the same \<^verbatim>\<open>dependencies\<close> array, whatever the clock, the
  working directory, the project id and the other files are; with the same project id the
  whole inventory is the same but for its timestamp. \<^verbatim>\<open>JSON.parse\<close> is the same
  function in both runs. (Two such runs that do not come to write, the key of a record
  having thrown in the deduplication, end with the same exception.)
\<close>

theorem dependencies_deterministic:
  assumes "LOCKFILES w1 = LOCKFILES w2"
    and "INCLUDE_DEV w1 = INCLUDE_DEV w2"
    and "JSON_parse w1 = JSON_parse w2"
    and "list_all (\<lambda>entry. readFileSync w1 (entry_path entry) = readFileSync w2 (entry_path entry))
           (split_str '','' (LOCKFILES w1))"
  shows "dependencies_written w1 = dependencies_written w2
     \<and> (PROJECT_ID w1 = PROJECT_ID w2 \<longrightarrow>
          inventory_without_timestamp w1 = inventory_without_timestamp w2)"
proof -
  have "process_entries w1 (split_str '','' (LOCKFILES w1)) =
      process_entries w2 (split_str '','' (LOCKFILES w2))"
    using process_entries_cong [OF assms(4,2,3)] assms(1) by simp
  then show ?thesis
    using assms(1)
    by (simp add: dependencies_written_def inventory_written_def inventory_without_timestamp_def
        main_def writeInventory_def prop_of_def without_timestamp_def entries_of_def Let_def
        split: prod.splits sum.splits)
qed

theorem dependencies_deterministic_witness:
  "dependencies_written first_run_world = dependencies_written rerun_world
   \<and> dependencies_written first_run_world =
       Inr (JArr [JObj [(''ecosystem'', JStr ''go''), (''name'', JStr ''github.com/pkg/errors''),
                        (''version'', JStr ''v0.9.1''), (''dev'', JBool False),
                        (''lockfile_source'', JStr ''go.sum'')]])
   \<and> inventory_without_timestamp first_run_world = inventory_without_timestamp rerun_world
   \<and> toISOString_now first_run_world \<noteq> toISOString_now rerun_world
   \<and> readFileSync first_run_world ''notes.txt'' \<noteq> readFileSync rerun_world ''notes.txt''"
proof -
  have a: "LOCKFILES first_run_world = LOCKFILES rerun_world"
    by (simp add: first_run_world_def rerun_world_def example_world_def LOCKFILES_def env_or_def)
  have b: "INCLUDE_DEV first_run_world = INCLUDE_DEV rerun_world"
    by (simp add: first_run_world_def rerun_world_def example_world_def INCLUDE_DEV_def)
  have c: "JSON_parse first_run_world = JSON_parse rerun_world"
    by (simp add: first_run_world_def rerun_world_def example_world_def)
  have d: "list_all (\<lambda>entry. readFileSync first_run_world (entry_path entry)
             = readFileSync rerun_world (entry_path entry))
           (split_str '','' (LOCKFILES first_run_world))"
    by (simp add: first_run_world_def rerun_world_def example_world_def LOCKFILES_def env_or_def
        split_str.simps entry_path_def)
  have e: "PROJECT_ID first_run_world = PROJECT_ID rerun_world"
    by (simp add: first_run_world_def rerun_world_def example_world_def PROJECT_ID_def env_or_def)
  have f: "dependencies_written first_run_world =
       Inr (JArr [JObj [(''ecosystem'', JStr ''go''), (''name'', JStr ''github.com/pkg/errors''),
                        (''version'', JStr ''v0.9.1''), (''dev'', JBool False),
                        (''lockfile_source'', JStr ''go.sum'')]])"
    by (simp add: first_run_world_def example_world_def main_eval go_sum_eval)
  from dependencies_deterministic [OF a b c d] e f show ?thesis
    by (simp add: first_run_world_def rerun_world_def example_world_def)
qed

section \<open>pom.xml: managed dependencies and the records\<close>































end
